theory Spec2Isabelle
  imports Main "HOL-Library.Multiset"
begin

section \<open>Heap-profile aggregation, ranking and rendering (pprof-path-handlers_util.cc)\<close>

text \<open>
  The development follows \<^verbatim>\<open>src/yb/server/pprof-path-handlers_util.cc\<close>: the two
  aggregation backends \<^verbatim>\<open>AggregateAndSortProfile\<close> (Google TCMalloc profile) and
  \<^verbatim>\<open>GetAggregateAndSortHeapSnapshot\<close> (gperftools flattened stack traces), the ranking
  step \<^verbatim>\<open>SortSamplesByOrder\<close> and the renderer \<^verbatim>\<open>GenerateTable\<close>.

  Integers: the cumulative totals are signed 64-bit integers. They are kept as their
  values, and every update stores the sum reduced to the 64-bit two's complement range
  (\<open>wrap64\<close> below). \<^verbatim>\<open>size_t\<close> and \<^verbatim>\<open>uintptr_t\<close> values are natural numbers.
\<close>

subsection \<open>Data model\<close>

text \<open>A code address (\<^verbatim>\<open>void*\<close>), read as the machine word it holds.\<close>

type_synonym addr = nat

text \<open>
  Modelled from the spec: the header \<^verbatim>\<open>yb/server/pprof-path-handlers_util.h\<close>, which
  declares \<^verbatim>\<open>SampleInfo\<close>, \<^verbatim>\<open>Sample\<close> and \<^verbatim>\<open>SampleOrder\<close>, is missing. The spec has
  \<^verbatim>\<open>SampleInfo\<close> hold the cumulative bytes and the cumulative occurrence count, both
  integers, an aggregated entry pair a stack key with a \<^verbatim>\<open>SampleInfo\<close>, and the order be
  by bytes or by count. The names are those the source file uses: \<^verbatim>\<open>.bytes\<close>, \<^verbatim>\<open>.count\<close>,
  \<^verbatim>\<open>.first\<close> and \<^verbatim>\<open>.second\<close> of the pair, \<^verbatim>\<open>SampleOrder::kBytes\<close>; the comparator treats
  every order other than \<^verbatim>\<open>kBytes\<close> as by count.
\<close>

record SampleInfo =
  bytes :: int
  count :: int

text \<open>
  The value a signed 64-bit variable holds after the mathematical result \<open>x\<close> is stored
  into it. \<^verbatim>\<open>entry.bytes += size\<close> with an unsigned 64-bit \<^verbatim>\<open>size\<close> is computed modulo \<open>2^64\<close>
  and converted back, which is this value; for \<^verbatim>\<open>++entry.count\<close> it is what the hardware
  leaves at the one point, \<open>2^63 - 1\<close>, where C++ leaves the result undefined.
\<close>

definition wrap64 :: "int \<Rightarrow> int" where
  "wrap64 x = (x + 2 ^ 63) mod 2 ^ 64 - 2 ^ 63"

type_synonym Sample = "string \<times> SampleInfo"

datatype SampleOrder = kCount | kBytes

text \<open>
  \<^verbatim>\<open>tcmalloc::Profile::Sample\<close>: \<^verbatim>\<open>sum\<close> is the byte total the sample stands for and
  \<^verbatim>\<open>count\<close> the number of allocations it stands for (negative for a deallocation
  sample); \<^verbatim>\<open>requested_size\<close> and \<^verbatim>\<open>allocated_size\<close> are the sizes of the one allocation
  that was sampled. The visitor computes with \<^verbatim>\<open>count\<close>, \<^verbatim>\<open>allocated_size\<close>, \<^verbatim>\<open>is_censored\<close>
  and the stack; \<^verbatim>\<open>sum\<close> and \<^verbatim>\<open>requested_size\<close> only reach the verbose log, as do
  \<^verbatim>\<open>avg_lifetime\<close> and the CPU-match flag, which are left out. \<open>stack\<close> holds the frames
  \<^verbatim>\<open>stack[0] .. stack[depth - 1]\<close>, so that \<^verbatim>\<open>depth\<close> is its length.
\<close>

record ProfileSample =
  sample_sum :: int
  sample_count :: int
  requested_size :: nat
  allocated_size :: nat
  is_censored :: bool
  stack :: "addr list"

text \<open>
  What a run can end in instead of a result: a read or write through a raw pointer
  outside its array, \<^verbatim>\<open>std::out_of_range\<close> thrown by \<^verbatim>\<open>at\<close>, a division by zero, and the
  heap-sort fallback of the library sort, which is not modelled.
\<close>

datatype error = OutOfBounds | OutOfRange | DivisionByZero | DepthLimit

text \<open>
  \<^verbatim>\<open>Symbolize(pc, buf, sizeof(buf))\<close> either fills the buffer with a name and returns true,
  or returns false. The resolver itself (absl or glog) is outside the file, so it is a
  parameter of everything below.
\<close>

type_synonym symbolizer = "addr \<Rightarrow> string option"

abbreviation endl :: string where
  "endl \<equiv> [CHR 0x0A]"

text \<open>
  The state that aggregation mutates: the failure counter and \<^verbatim>\<open>samples_map\<close>. The
  unordered map is kept as an association list with one pair per key, in order of first
  insertion; the iteration order of the real container is fixed by its hash function
  and is not relied upon by any statement below.
\<close>

record agg_state =
  failed_symbolizations :: int
  samples_map :: "Sample list"

definition agg_init :: agg_state where
  "agg_init = \<lparr>failed_symbolizations = 0, samples_map = []\<rparr>"

subsection \<open>Symbolizing one stack\<close>

text \<open>
  The frame loop, identical in both backends (lines 109--116 and 179--186): every frame
  appends one line to the string stream; a frame that fails to symbolize appends the
  placeholder and bumps the counter.
\<close>

fun symbolize_stack :: "symbolizer \<Rightarrow> addr list \<Rightarrow> string \<Rightarrow> int \<Rightarrow> string \<times> int" where
  "symbolize_stack symbolize [] sstream failed = (sstream, failed)"
| "symbolize_stack symbolize (pc # rest) sstream failed =
     (case symbolize pc of
        Some buf \<Rightarrow> symbolize_stack symbolize rest (sstream @ buf @ endl) failed
      | None \<Rightarrow> symbolize_stack symbolize rest (sstream @ ''Failed to symbolize'' @ endl) (failed + 1))"

subsection \<open>The map update\<close>

text \<open>
  \<^verbatim>\<open>auto& entry = samples_map[stack]; entry.bytes += b; entry.count += c;\<close>
  where \<^verbatim>\<open>operator[]\<close> inserts a zero-initialised \<^verbatim>\<open>SampleInfo\<close> for a new key.
\<close>

fun entry_add :: "string \<Rightarrow> int \<Rightarrow> int \<Rightarrow> Sample list \<Rightarrow> Sample list" where
  "entry_add k b c [] = [(k, \<lparr>bytes = wrap64 (0 + b), count = wrap64 (0 + c)\<rparr>)]"
| "entry_add k b c ((k', v) # m) =
     (if k' = k
      then (k', v\<lparr>bytes := wrap64 (bytes v + b), count := wrap64 (count v + c)\<rparr>) # m
      else (k', v) # entry_add k b c m)"

text \<open>Reading an entry of the map; absent keys read as the zero entry they would be created with.\<close>

definition entry_of :: "Sample list \<Rightarrow> string \<Rightarrow> SampleInfo" where
  "entry_of m k = (case map_of m k of Some v \<Rightarrow> v | None \<Rightarrow> \<lparr>bytes = 0, count = 0\<rparr>)"

subsection \<open>Backend 1: the TCMalloc allocation profile\<close>

text \<open>The visitor passed to \<^verbatim>\<open>profile.Iterate\<close> (lines 91--132).\<close>

definition profile_visit :: "symbolizer \<Rightarrow> bool \<Rightarrow> ProfileSample \<Rightarrow> agg_state \<Rightarrow> agg_state" where
  "profile_visit symbolize only_growth sample st =
     (if sample_count sample \<le> 0 then st
      else if only_growth \<and> \<not> is_censored sample then st
      else
        (case symbolize_stack symbolize (stack sample) [] (failed_symbolizations st) of
           (key, failed) \<Rightarrow>
             \<lparr>failed_symbolizations = failed,
              samples_map = entry_add key (int (allocated_size sample)) 1 (samples_map st)\<rparr>))"

text \<open>\<^verbatim>\<open>profile.Iterate\<close> calls the visitor on every sample of the profile, in order.\<close>

fun profile_iterate :: "symbolizer \<Rightarrow> bool \<Rightarrow> ProfileSample list \<Rightarrow> agg_state \<Rightarrow> agg_state" where
  "profile_iterate symbolize only_growth [] st = st"
| "profile_iterate symbolize only_growth (sample # rest) st =
     profile_iterate symbolize only_growth rest (profile_visit symbolize only_growth sample st)"

definition AggregateProfile :: "symbolizer \<Rightarrow> bool \<Rightarrow> ProfileSample list \<Rightarrow> agg_state" where
  "AggregateProfile symbolize only_growth profile = profile_iterate symbolize only_growth profile agg_init"

subsection \<open>Ranking\<close>

text \<open>
  The comparator handed to \<^verbatim>\<open>std::sort\<close> (lines 42--47): \<^verbatim>\<open>a\<close> goes before \<^verbatim>\<open>b\<close> when its
  key is strictly greater.
\<close>

definition sample_greater :: "SampleOrder \<Rightarrow> Sample \<Rightarrow> Sample \<Rightarrow> bool" where
  "sample_greater order a b =
     (if order = kBytes then bytes (snd a) > bytes (snd b)
      else count (snd a) > count (snd b))"

text \<open>
  \<^verbatim>\<open>std::sort\<close> belongs to the C++ standard library, not to this file, so the sorting
  routine is a parameter. What the standard promises of it: for a comparator that is a
  strict weak ordering, the result is a rearrangement of the input in which no element
  is preceded by one that the comparator places after it. It promises nothing about the
  relative order of equivalent elements.
\<close>

type_synonym 'a sorter = "('a \<Rightarrow> 'a \<Rightarrow> bool) \<Rightarrow> 'a list \<Rightarrow> 'a list"

definition strict_weak_order :: "('a \<Rightarrow> 'a \<Rightarrow> bool) \<Rightarrow> bool" where
  "strict_weak_order cmp \<longleftrightarrow>
     (\<forall>a. \<not> cmp a a) \<and>
     (\<forall>a b c. cmp a b \<and> cmp b c \<longrightarrow> cmp a c) \<and>
     (\<forall>a b c. \<not> cmp a b \<and> \<not> cmp b a \<and> \<not> cmp b c \<and> \<not> cmp c b \<longrightarrow> \<not> cmp a c \<and> \<not> cmp c a)"

definition std_sort_contract :: "'a sorter \<Rightarrow> bool" where
  "std_sort_contract std_sort \<longleftrightarrow>
     (\<forall>cmp xs. strict_weak_order cmp \<longrightarrow>
        mset (std_sort cmp xs) = mset xs \<and>
        sorted_wrt (\<lambda>a b. \<not> cmp b a) (std_sort cmp xs))"

definition SortSamplesByOrder :: "Sample sorter \<Rightarrow> Sample list \<Rightarrow> SampleOrder \<Rightarrow> Sample list" where
  "SortSamplesByOrder std_sort samples order = std_sort (sample_greater order) samples"

text \<open>
  One sorting routine that meets the contract: insertion sort that keeps equivalent
  elements in their order. An element is put in front of the first element of the
  sorted rest that does not go before it.
\<close>

fun insert_sorted :: "('a \<Rightarrow> 'a \<Rightarrow> bool) \<Rightarrow> 'a \<Rightarrow> 'a list \<Rightarrow> 'a list" where
  "insert_sorted cmp x [] = [x]"
| "insert_sorted cmp x (y # ys) =
     (if cmp y x then y # insert_sorted cmp x ys else x # y # ys)"

definition insertion_sort :: "'a sorter" where
  "insertion_sort cmp xs = foldr (insert_sorted cmp) xs []"

subsection \<open>\<^verbatim>\<open>std::sort\<close> as GNU libstdc++ implements it\<close>

text \<open>
  The contract above leaves the order of equivalent elements open. What a run of the
  program does with them is decided by the library it is linked with. This is the
  algorithm of GNU libstdc++ (\<^verbatim>\<open>bits/stl_algo.h\<close>): an introsort loop that partitions
  ranges of more than 16 elements around a median of three, followed by an insertion
  sort. The array is a list, iterators are indices into it, and a read or write outside
  the array is the value \<open>Inl OutOfBounds\<close>.
\<close>

text \<open>\<^verbatim>\<open>std::iter_swap(a, b)\<close>\<close>

definition iter_swap :: "'a list \<Rightarrow> nat \<Rightarrow> nat \<Rightarrow> 'a list" where
  "iter_swap xs a b = xs[a := xs ! b, b := xs ! a]"

text \<open>\<^verbatim>\<open>std::__lg(n)\<close>, the position of the highest bit of \<open>n\<close>.\<close>

fun lg :: "nat \<Rightarrow> nat" where
  "lg n = (if n < 2 then 0 else Suc (lg (n div 2)))"

text \<open>\<^verbatim>\<open>__move_median_to_first(result, a, b, c, comp)\<close>\<close>

definition move_median_to_first ::
    "('a \<Rightarrow> 'a \<Rightarrow> bool) \<Rightarrow> 'a list \<Rightarrow> nat \<Rightarrow> nat \<Rightarrow> nat \<Rightarrow> nat \<Rightarrow> 'a list" where
  "move_median_to_first cmp xs result a b c =
     (if cmp (xs ! a) (xs ! b) then
        (if cmp (xs ! b) (xs ! c) then iter_swap xs result b
         else if cmp (xs ! a) (xs ! c) then iter_swap xs result c
         else iter_swap xs result a)
      else if cmp (xs ! a) (xs ! c) then iter_swap xs result a
      else if cmp (xs ! b) (xs ! c) then iter_swap xs result c
      else iter_swap xs result b)"

text \<open>
  The two scans of \<^verbatim>\<open>__unguarded_partition\<close>:
  \<^verbatim>\<open>while (comp(first, pivot)) ++first;\<close> and \<^verbatim>\<open>while (comp(pivot, last)) --last;\<close>.
\<close>

function scan_up :: "('a \<Rightarrow> 'a \<Rightarrow> bool) \<Rightarrow> 'a list \<Rightarrow> nat \<Rightarrow> nat \<Rightarrow> error + nat" where
  "scan_up cmp xs pivot first =
     (if length xs \<le> first \<or> length xs \<le> pivot then Inl OutOfBounds
      else if cmp (xs ! first) (xs ! pivot) then scan_up cmp xs pivot (Suc first)
      else Inr first)"
  by pat_completeness auto
termination
  by (relation "measure (\<lambda>(cmp, xs, pivot, first). length xs - first)") auto

function scan_down :: "('a \<Rightarrow> 'a \<Rightarrow> bool) \<Rightarrow> 'a list \<Rightarrow> nat \<Rightarrow> nat \<Rightarrow> error + nat" where
  "scan_down cmp xs pivot lst =
     (if length xs \<le> lst \<or> length xs \<le> pivot then Inl OutOfBounds
      else if cmp (xs ! pivot) (xs ! lst) then
        (if lst = 0 then Inl OutOfBounds else scan_down cmp xs pivot (lst - 1))
      else Inr lst)"
  by pat_completeness auto
termination
  by (relation "measure (\<lambda>(cmp, xs, pivot, lst). lst)") auto

text \<open>
  \<^verbatim>\<open>__unguarded_partition(first, last, pivot, comp)\<close>. The first argument bounds the
  number of iterations; every iteration but the last moves \<open>first\<close> up, so the length of
  the range and one more are enough. \<open>lst\<close> is the iterator \<^verbatim>\<open>last\<close>.
\<close>

fun unguarded_partition ::
    "nat \<Rightarrow> ('a \<Rightarrow> 'a \<Rightarrow> bool) \<Rightarrow> 'a list \<Rightarrow> nat \<Rightarrow> nat \<Rightarrow> nat \<Rightarrow> error + nat \<times> 'a list" where
  "unguarded_partition 0 cmp xs first lst pivot = Inl OutOfBounds"
| "unguarded_partition (Suc n) cmp xs first lst pivot =
     (case scan_up cmp xs pivot first of
        Inl e \<Rightarrow> Inl e
      | Inr first' \<Rightarrow>
          if lst = 0 then Inl OutOfBounds
          else
            (case scan_down cmp xs pivot (lst - 1) of
               Inl e \<Rightarrow> Inl e
             | Inr lst' \<Rightarrow>
                 if \<not> first' < lst' then Inr (first', xs)
                 else unguarded_partition n cmp (iter_swap xs first' lst') (Suc first') lst' pivot))"

text \<open>\<^verbatim>\<open>__unguarded_partition_pivot(first, last, comp)\<close>\<close>

definition unguarded_partition_pivot ::
    "('a \<Rightarrow> 'a \<Rightarrow> bool) \<Rightarrow> 'a list \<Rightarrow> nat \<Rightarrow> nat \<Rightarrow> error + nat \<times> 'a list" where
  "unguarded_partition_pivot cmp xs first lst =
     (let mid = first + (lst - first) div 2;
          xs = move_median_to_first cmp xs first (first + 1) mid (lst - 1)
      in unguarded_partition (Suc (lst - first)) cmp xs (first + 1) lst first)"

text \<open>
  \<^verbatim>\<open>__introsort_loop(first, last, depth_limit, comp)\<close>. When the depth limit is used up
  the library sorts the range with a heap sort, which is not part of this model: that
  case is the value \<open>Inl DepthLimit\<close>.
\<close>

fun introsort_loop ::
    "('a \<Rightarrow> 'a \<Rightarrow> bool) \<Rightarrow> 'a list \<Rightarrow> nat \<Rightarrow> nat \<Rightarrow> nat \<Rightarrow> error + 'a list" where
  "introsort_loop cmp xs first lst 0 =
     (if lst - first > 16 then Inl DepthLimit else Inr xs)"
| "introsort_loop cmp xs first lst (Suc depth_limit) =
     (if lst - first > 16 then
        (case unguarded_partition_pivot cmp xs first lst of
           Inl e \<Rightarrow> Inl e
         | Inr (cut', xs) \<Rightarrow>
             (case introsort_loop cmp xs cut' lst depth_limit of
                Inl e \<Rightarrow> Inl e
              | Inr xs \<Rightarrow> introsort_loop cmp xs first cut' depth_limit))
      else Inr xs)"

text \<open>
  \<^verbatim>\<open>__unguarded_linear_insert(last, comp)\<close>: the value at \<open>last\<close> moves down past the
  elements it goes before.
\<close>

function unguarded_linear_insert ::
    "('a \<Rightarrow> 'a \<Rightarrow> bool) \<Rightarrow> 'a list \<Rightarrow> nat \<Rightarrow> 'a \<Rightarrow> error + 'a list" where
  "unguarded_linear_insert cmp xs lst val =
     (if lst = 0 \<or> length xs \<le> lst then Inl OutOfBounds
      else if cmp val (xs ! (lst - 1))
      then unguarded_linear_insert cmp (xs[lst := xs ! (lst - 1)]) (lst - 1) val
      else Inr (xs[lst := val]))"
  by pat_completeness auto
termination
  by (relation "measure (\<lambda>(cmp, xs, lst, val). lst)") auto

text \<open>
  \<^verbatim>\<open>__insertion_sort(first, last, comp)\<close>, from index \<open>i\<close> on. An element that goes before
  the first one is moved to the front, the elements between shifted up by one.
\<close>

function insertion_sort_from ::
    "('a \<Rightarrow> 'a \<Rightarrow> bool) \<Rightarrow> 'a list \<Rightarrow> nat \<Rightarrow> nat \<Rightarrow> nat \<Rightarrow> error + 'a list" where
  "insertion_sort_from cmp xs first i lst =
     (if lst \<le> i then Inr xs
      else if length xs \<le> i then Inl OutOfBounds
      else if cmp (xs ! i) (xs ! first)
      then insertion_sort_from cmp
             (take first xs @ [xs ! i] @ take (i - first) (drop first xs) @ drop (Suc i) xs)
             first (Suc i) lst
      else
        (case unguarded_linear_insert cmp xs i (xs ! i) of
           Inl e \<Rightarrow> Inl e
         | Inr xs \<Rightarrow> insertion_sort_from cmp xs first (Suc i) lst))"
  by pat_completeness auto
termination
  by (relation "measure (\<lambda>(cmp, xs, first, i, lst). lst - i)") auto

definition libstdcxx_insertion_sort ::
    "('a \<Rightarrow> 'a \<Rightarrow> bool) \<Rightarrow> 'a list \<Rightarrow> nat \<Rightarrow> nat \<Rightarrow> error + 'a list" where
  "libstdcxx_insertion_sort cmp xs first lst =
     (if first = lst then Inr xs else insertion_sort_from cmp xs first (first + 1) lst)"

text \<open>\<^verbatim>\<open>__unguarded_insertion_sort(first, last, comp)\<close>, from index \<open>i\<close> on.\<close>

function unguarded_insertion_sort ::
    "('a \<Rightarrow> 'a \<Rightarrow> bool) \<Rightarrow> 'a list \<Rightarrow> nat \<Rightarrow> nat \<Rightarrow> error + 'a list" where
  "unguarded_insertion_sort cmp xs i lst =
     (if lst \<le> i then Inr xs
      else if length xs \<le> i then Inl OutOfBounds
      else
        (case unguarded_linear_insert cmp xs i (xs ! i) of
           Inl e \<Rightarrow> Inl e
         | Inr xs \<Rightarrow> unguarded_insertion_sort cmp xs (Suc i) lst))"
  by pat_completeness auto
termination
  by (relation "measure (\<lambda>(cmp, xs, i, lst). lst - i)") auto

text \<open>\<^verbatim>\<open>__final_insertion_sort(first, last, comp)\<close>\<close>

definition final_insertion_sort ::
    "('a \<Rightarrow> 'a \<Rightarrow> bool) \<Rightarrow> 'a list \<Rightarrow> nat \<Rightarrow> nat \<Rightarrow> error + 'a list" where
  "final_insertion_sort cmp xs first lst =
     (if lst - first > 16 then
        (case libstdcxx_insertion_sort cmp xs first (first + 16) of
           Inl e \<Rightarrow> Inl e
         | Inr xs \<Rightarrow> unguarded_insertion_sort cmp xs (first + 16) lst)
      else libstdcxx_insertion_sort cmp xs first lst)"

text \<open>\<^verbatim>\<open>std::sort(first, last, comp)\<close> on the whole array.\<close>

definition libstdcxx_sort :: "('a \<Rightarrow> 'a \<Rightarrow> bool) \<Rightarrow> 'a list \<Rightarrow> error + 'a list" where
  "libstdcxx_sort cmp xs =
     (if xs = [] then Inr xs
      else
        (case introsort_loop cmp xs 0 (length xs) (lg (length xs) * 2) of
           Inl e \<Rightarrow> Inl e
         | Inr xs \<Rightarrow> final_insertion_sort cmp xs 0 (length xs)))"

text \<open>
  The same as a sorting routine for \<^verbatim>\<open>SortSamplesByOrder\<close>; where the model above has no
  result the array is returned as it was.
\<close>

definition gnu_sort :: "'a sorter" where
  "gnu_sort cmp xs = (case libstdcxx_sort cmp xs of Inr ys \<Rightarrow> ys | Inl e \<Rightarrow> xs)"

subsection \<open>\<^verbatim>\<open>AggregateAndSortProfile\<close>\<close>

text \<open>
  Lines 85--144: iterate, move the map's pairs into \<^verbatim>\<open>samples_vec\<close>, sort. The failure
  count is only logged; \<open>AggregateProfile\<close> above exposes it.
\<close>

definition AggregateAndSortProfile ::
    "Sample sorter \<Rightarrow> symbolizer \<Rightarrow> ProfileSample list \<Rightarrow> bool \<Rightarrow> SampleOrder \<Rightarrow> Sample list" where
  "AggregateAndSortProfile std_sort symbolize profile only_growth order =
     (let samples_vec = samples_map (AggregateProfile symbolize only_growth profile)
      in SortSamplesByOrder std_sort samples_vec order)"

subsection \<open>Backend 2: the gperftools heap snapshot\<close>

text \<open>
  \<^verbatim>\<open>ReadStackTraces\<close> returns a flattened array of machine words,
  \<^verbatim>\<open>[count, size, depth, frame 0, frame 1, ...]\<close> per sample. A sample pointer
  \<^verbatim>\<open>void** sample\<close> is the array together with an offset into it. The accessors read
  without a check, as the C++ does; the loop below calls them behind its guards only.
  A word is a natural number below \<open>2^64\<close>; added to a 64-bit total it is added modulo
  \<open>2^64\<close>, as the map update does.
\<close>

definition GetSampleCount :: "nat list \<Rightarrow> nat \<Rightarrow> nat" where
  "GetSampleCount samples entry = samples ! entry"

definition GetSampleSize :: "nat list \<Rightarrow> nat \<Rightarrow> nat" where
  "GetSampleSize samples entry = samples ! (entry + 1)"

definition GetSampleDepth :: "nat list \<Rightarrow> nat \<Rightarrow> nat" where
  "GetSampleDepth samples entry = samples ! (entry + 2)"

definition GetSampleProgramCounter :: "nat list \<Rightarrow> nat \<Rightarrow> nat \<Rightarrow> addr" where
  "GetSampleProgramCounter samples entry i = samples ! (entry + 3 + i)"

text \<open>
  The body of the loop (lines 176--195) for the sample at offset \<open>sample\<close>: symbolize
  its \<^verbatim>\<open>depth\<close> frames, then add its size and its count to the entry of the key.
\<close>

definition snapshot_visit :: "symbolizer \<Rightarrow> nat list \<Rightarrow> nat \<Rightarrow> agg_state \<Rightarrow> agg_state" where
  "snapshot_visit symbolize samples sample st =
     (case symbolize_stack symbolize
             (map (GetSampleProgramCounter samples sample) [0..<GetSampleDepth samples sample])
             [] (failed_symbolizations st) of
        (key, failed) \<Rightarrow>
          \<lparr>failed_symbolizations = failed,
           samples_map = entry_add key (int (GetSampleSize samples sample))
                           (int (GetSampleCount samples sample)) (samples_map st)\<rparr>)"

text \<open>
  The loop of line 175:
  \<^verbatim>\<open>for (sample = samples; GetSampleCount(sample) != 0; sample += 3 + GetSampleDepth(sample))\<close>.
  The C++ reads through raw pointers; a read past the end of the array is undefined
  there and is the value \<open>Inl OutOfBounds\<close> here. The three guards are the reads of the
  count, of the size and depth, and of the frames.
\<close>

function snapshot_loop :: "symbolizer \<Rightarrow> nat list \<Rightarrow> nat \<Rightarrow> agg_state \<Rightarrow> error + agg_state" where
  "snapshot_loop symbolize samples sample st =
     (if length samples \<le> sample then Inl OutOfBounds
      else if GetSampleCount samples sample = 0 then Inr st
      else if length samples \<le> sample + 2 then Inl OutOfBounds
      else if length samples < sample + 3 + GetSampleDepth samples sample then Inl OutOfBounds
      else snapshot_loop symbolize samples (sample + 3 + GetSampleDepth samples sample)
             (snapshot_visit symbolize samples sample st))"
  by pat_completeness auto
termination
  by (relation "measure (\<lambda>(symbolize, samples, sample, st). length samples - sample)") auto

definition AggregateHeapSnapshot :: "symbolizer \<Rightarrow> nat list \<Rightarrow> error + agg_state" where
  "AggregateHeapSnapshot symbolize samples = snapshot_loop symbolize samples 0 agg_init"

definition GetAggregateAndSortHeapSnapshot ::
    "Sample sorter \<Rightarrow> symbolizer \<Rightarrow> nat list \<Rightarrow> SampleOrder \<Rightarrow> error + Sample list" where
  "GetAggregateAndSortHeapSnapshot std_sort symbolize samples order =
     (case AggregateHeapSnapshot symbolize samples of
        Inl e \<Rightarrow> Inl e
      | Inr st \<Rightarrow> Inr (SortSamplesByOrder std_sort (samples_map st) order))"

subsection \<open>\<^verbatim>\<open>GenerateTable\<close>\<close>

text \<open>
  The output stream is the sequence of values written to it with \<^verbatim>\<open><<\<close>: a string
  literal, or a call of \<^verbatim>\<open>Format\<close> with its template and arguments (\<^verbatim>\<open>Format\<close> lives in
  \<^verbatim>\<open>yb/util/format.h\<close>; it replaces \<^verbatim>\<open>$0\<close>, \<^verbatim>\<open>$1\<close> by the arguments). The manipulators
  \<^verbatim>\<open>std::fixed\<close> and \<^verbatim>\<open>std::setprecision(2)\<close> write nothing and only affect floating-point
  output, of which there is none.
\<close>

datatype fmt_arg = Num int | Str string

datatype chunk = Lit string | Format string "fmt_arg list"

text \<open>Signed 64-bit division: undefined for a zero divisor, otherwise truncating towards zero.\<close>

definition trunc_div :: "int \<Rightarrow> int \<Rightarrow> int" where
  "trunc_div a b = sgn a * sgn b * (\<bar>a\<bar> div \<bar>b\<bar>)"

definition int64_div :: "int \<Rightarrow> int \<Rightarrow> error + int" where
  "int64_div a b = (if b = 0 then Inl DivisionByZero else Inr (trunc_div a b))"

text \<open>\<^verbatim>\<open>entry.second.count <= 0 ? 0 : entry.second.bytes / entry.second.count\<close>\<close>

definition avg_bytes :: "SampleInfo \<Rightarrow> error + int" where
  "avg_bytes info = (if count info \<le> 0 then Inr 0 else int64_div (bytes info) (count info))"

text \<open>\<^verbatim>\<open>std::vector::at\<close> throws \<^verbatim>\<open>std::out_of_range\<close> for an index past the end.\<close>

definition at :: "'a list \<Rightarrow> nat \<Rightarrow> error + 'a" where
  "at xs i = (if i < length xs then Inr (xs ! i) else Inl OutOfRange)"

text \<open>The chunks of one table row (lines 233--239), given the computed average.\<close>

definition row_chunks :: "(string \<Rightarrow> string) \<Rightarrow> Sample \<Rightarrow> int \<Rightarrow> chunk list" where
  "row_chunks EscapeForHtmlToString entry avg =
     [Lit ''<tr>'',
      Format ''<td>$0</td>'' [Num (bytes (snd entry))],
      Format ''<td>$0</td>'' [Num (count (snd entry))],
      Format ''<td>$0</td>'' [Num avg],
      Format ''<td><pre>$0</pre></td>'' [Str (EscapeForHtmlToString (fst entry))],
      Lit ''</tr>'']"

text \<open>The row loop (lines 231--240), from index \<open>i\<close> on.\<close>

function table_rows ::
    "(string \<Rightarrow> string) \<Rightarrow> Sample list \<Rightarrow> nat \<Rightarrow> nat \<Rightarrow> chunk list \<Rightarrow> error + chunk list" where
  "table_rows EscapeForHtmlToString samples max_call_stacks i output =
     (if i < min max_call_stacks (length samples) then
        (case at samples i of
           Inl e \<Rightarrow> Inl e
         | Inr entry \<Rightarrow>
             (case avg_bytes (snd entry) of
                Inl e \<Rightarrow> Inl e
              | Inr avg \<Rightarrow>
                  table_rows EscapeForHtmlToString samples max_call_stacks (Suc i)
                    (output @ row_chunks EscapeForHtmlToString entry avg)))
      else Inr output)"
  by pat_completeness auto
termination
  by (relation "measure (\<lambda>(esc, samples, max_call_stacks, i, output).
                   min max_call_stacks (length samples) - i)") auto

text \<open>The heading and, when rows will be cut, the truncation notice (lines 218--221).\<close>

definition title_chunk :: "nat \<Rightarrow> string \<Rightarrow> chunk" where
  "title_chunk max_call_stacks title =
     Format (''<b>Top $0 Call Stacks for: $1</b>'' @ endl) [Num (int max_call_stacks), Str title]"

definition truncation_notice :: "int \<Rightarrow> chunk" where
  "truncation_notice n = Format (''$0 call stacks truncated'' @ endl) [Num n]"

text \<open>The fixed opening of the table (lines 222--229).\<close>

definition table_head :: "chunk list" where
  \<open>table_head =
     [Lit (''<p>'' @ endl),
      Lit (''<table style="border-collapse: collapse" border=1 cellpadding=5>'' @ endl),
      Lit (''<tr>'' @ endl),
      Lit (''<th>Total bytes</th>'' @ endl),
      Lit (''<th>Count</th>'' @ endl),
      Lit (''<th>Avg bytes</th>'' @ endl),
      Lit (''<th>Call Stack</th>'' @ endl),
      Lit (''</tr>'' @ endl)]\<close>

text \<open>
  \<^verbatim>\<open>GenerateTable\<close> appends to the stream it is given. \<^verbatim>\<open>EscapeForHtmlToString\<close> comes from
  \<^verbatim>\<open>yb/util/url-coding.h\<close> and is a parameter.
\<close>

definition GenerateTable ::
    "(string \<Rightarrow> string) \<Rightarrow> chunk list \<Rightarrow> Sample list \<Rightarrow> string \<Rightarrow> nat \<Rightarrow> error + chunk list" where
  "GenerateTable EscapeForHtmlToString output samples title max_call_stacks =
     (let output = output @ [title_chunk max_call_stacks title];
          output = (if length samples > max_call_stacks
                    then output @ [truncation_notice (int (length samples - max_call_stacks))]
                    else output);
          output = output @ table_head
      in case table_rows EscapeForHtmlToString samples max_call_stacks 0 output of
           Inl e \<Rightarrow> Inl e
         | Inr output \<Rightarrow> Inr (output @ [Lit ''</table>'']))"

subsection \<open>Notions used in the statements\<close>

text \<open>The line one frame contributes to the key, and the number of frames that fail.\<close>

definition frame_line :: "symbolizer \<Rightarrow> addr \<Rightarrow> string" where
  "frame_line symbolize pc =
     (case symbolize pc of Some buf \<Rightarrow> buf @ endl | None \<Rightarrow> ''Failed to symbolize'' @ endl)"

definition stack_key :: "symbolizer \<Rightarrow> addr list \<Rightarrow> string" where
  "stack_key symbolize frames = concat (map (frame_line symbolize) frames)"

definition failures :: "symbolizer \<Rightarrow> addr list \<Rightarrow> int" where
  "failures symbolize frames = int (length (filter (\<lambda>pc. symbolize pc = None) frames))"

text \<open>A sample of the profile is retained when it passes both filters of the visitor.\<close>

definition retained :: "bool \<Rightarrow> ProfileSample \<Rightarrow> bool" where
  "retained only_growth sample \<longleftrightarrow>
     0 < sample_count sample \<and> (only_growth \<longrightarrow> is_censored sample)"

text \<open>
  A sample of the snapshot as a triple of count, size and frames, and the way
  \<^verbatim>\<open>ReadStackTraces\<close> lays a sequence of them out: \<^verbatim>\<open>[count, size, depth, frames...]\<close> each.
\<close>

type_synonym trace = "nat \<times> nat \<times> addr list"

fun flatten_trace :: "trace \<Rightarrow> nat list" where
  "flatten_trace (cnt, sz, frames) = [cnt, sz, length frames] @ frames"

definition flatten :: "trace list \<Rightarrow> nat list" where
  "flatten traces = concat (map flatten_trace traces)"

text \<open>What one snapshot sample adds: its size and its count, under the key of its frames.\<close>

fun add_trace :: "symbolizer \<Rightarrow> trace \<Rightarrow> agg_state \<Rightarrow> agg_state" where
  "add_trace symbolize (cnt, sz, frames) st =
     \<lparr>failed_symbolizations = failed_symbolizations st + failures symbolize frames,
      samples_map = entry_add (stack_key symbolize frames) (int sz) (int cnt) (samples_map st)\<rparr>"

text \<open>The totals over a list of entries.\<close>

definition total_bytes :: "Sample list \<Rightarrow> int" where
  "total_bytes entries = sum_list (map (\<lambda>e. bytes (snd e)) entries)"

definition total_count :: "Sample list \<Rightarrow> int" where
  "total_count entries = sum_list (map (\<lambda>e. count (snd e)) entries)"

text \<open>The value the average column shows, and a whole row of the table.\<close>

definition avg_column :: "SampleInfo \<Rightarrow> int" where
  "avg_column info = (case avg_bytes info of Inr avg \<Rightarrow> avg | Inl e \<Rightarrow> 0)"

definition table_row :: "(string \<Rightarrow> string) \<Rightarrow> Sample \<Rightarrow> chunk list" where
  "table_row EscapeForHtmlToString entry =
     row_chunks EscapeForHtmlToString entry (avg_column (snd entry))"

text \<open>The key of a snapshot sample.\<close>

definition trace_key :: "symbolizer \<Rightarrow> trace \<Rightarrow> string" where
  "trace_key symbolize t = stack_key symbolize (snd (snd t))"

text \<open>The key an order ranks by.\<close>

definition sort_key :: "SampleOrder \<Rightarrow> Sample \<Rightarrow> int" where
  "sort_key order e = (case order of kBytes \<Rightarrow> bytes (snd e) | kCount \<Rightarrow> count (snd e))"

subsection \<open>Concrete inputs\<close>

text \<open>
  A resolver that knows two addresses, and four samples: two of one allocation each on
  the stack \<^verbatim>\<open>foo, bar\<close> (the second one not censored), a deallocation sample, and a
  sample that stands for 3 allocations and 150 bytes, taken at an allocation of 50
  bytes on a stack the resolver cannot name.
\<close>

definition example_symbolize :: symbolizer where
  "example_symbolize pc =
     (if pc = 1 then Some ''foo'' else if pc = 2 then Some ''bar'' else None)"

definition sample_a :: ProfileSample where
  "sample_a = \<lparr>sample_sum = 100, sample_count = 1, requested_size = 100, allocated_size = 100,
                is_censored = True, stack = [1, 2]\<rparr>"

definition sample_b :: ProfileSample where
  "sample_b = \<lparr>sample_sum = 300, sample_count = 1, requested_size = 290, allocated_size = 300,
                is_censored = False, stack = [1, 2]\<rparr>"

definition sample_dealloc :: ProfileSample where
  "sample_dealloc = \<lparr>sample_sum = - 320, sample_count = - 5, requested_size = 60,
                      allocated_size = 64, is_censored = True, stack = [1]\<rparr>"

definition sample_c :: ProfileSample where
  "sample_c = \<lparr>sample_sum = 150, sample_count = 3, requested_size = 48, allocated_size = 50,
                is_censored = True, stack = [7, 8, 9]\<rparr>"

definition example_profile :: "ProfileSample list" where
  "example_profile = [sample_a, sample_b, sample_dealloc, sample_c]"

text \<open>The two samples of the growth-only scenario, on distinct stacks.\<close>

definition sample_grown :: ProfileSample where
  "sample_grown = \<lparr>sample_sum = 50, sample_count = 1, requested_size = 50, allocated_size = 50,
                    is_censored = True, stack = [1]\<rparr>"

definition sample_freed :: ProfileSample where
  "sample_freed = \<lparr>sample_sum = 999, sample_count = 1, requested_size = 999,
                    allocated_size = 999, is_censored = False, stack = [2]\<rparr>"

text \<open>A sample of one allocation of \<open>2^63\<close> bytes.\<close>

definition sample_huge :: ProfileSample where
  "sample_huge = \<lparr>sample_sum = 0, sample_count = 1, requested_size = 9223372036854775808,
                   allocated_size = 9223372036854775808, is_censored = True, stack = [1]\<rparr>"

text \<open>
  A snapshot array: a sample of count 2 and size 128 on \<^verbatim>\<open>foo, bar\<close>, a sample of count 1
  and size 64 on an unknown frame, the terminating zero, and words behind it.
\<close>

definition example_traces :: "trace list" where
  "example_traces = [(2, 128, [1, 2]), (1, 64, [7])]"

definition example_snapshot :: "nat list" where
  "example_snapshot = [2, 128, 2, 1, 2, 1, 64, 1, 7, 0, 5, 4096, 1, 2]"

text \<open>
  A snapshot array of one sample on \<^verbatim>\<open>foo\<close> whose count word is \<open>2^64 - 5\<close> and whose size
  word is \<open>2^63\<close>, and one whose size word is \<open>2^64 - 7\<close> with count 2.
\<close>

definition wrapped_snapshot :: "nat list" where
  "wrapped_snapshot = [18446744073709551611, 9223372036854775808, 1, 1, 0]"

definition negative_snapshot :: "nat list" where
  "negative_snapshot = [2, 18446744073709551609, 1, 1, 0]"

text \<open>Three entries, two of them with equal byte totals.\<close>

definition example_entries :: "Sample list" where
  "example_entries =
     [(''a'', \<lparr>bytes = 10, count = 1\<rparr>),
      (''b'', \<lparr>bytes = 10, count = 4\<rparr>),
      (''c'', \<lparr>bytes = 30, count = 0\<rparr>)]"

text \<open>Seventeen entries with the same byte total; the counts number them in input order.\<close>

definition tied_entries :: "Sample list" where
  "tied_entries =
     [(''s00'', \<lparr>bytes = 10, count = 1\<rparr>),
      (''s01'', \<lparr>bytes = 10, count = 2\<rparr>),
      (''s02'', \<lparr>bytes = 10, count = 3\<rparr>),
      (''s03'', \<lparr>bytes = 10, count = 4\<rparr>),
      (''s04'', \<lparr>bytes = 10, count = 5\<rparr>),
      (''s05'', \<lparr>bytes = 10, count = 6\<rparr>),
      (''s06'', \<lparr>bytes = 10, count = 7\<rparr>),
      (''s07'', \<lparr>bytes = 10, count = 8\<rparr>),
      (''s08'', \<lparr>bytes = 10, count = 9\<rparr>),
      (''s09'', \<lparr>bytes = 10, count = 10\<rparr>),
      (''s10'', \<lparr>bytes = 10, count = 11\<rparr>),
      (''s11'', \<lparr>bytes = 10, count = 12\<rparr>),
      (''s12'', \<lparr>bytes = 10, count = 13\<rparr>),
      (''s13'', \<lparr>bytes = 10, count = 14\<rparr>),
      (''s14'', \<lparr>bytes = 10, count = 15\<rparr>),
      (''s15'', \<lparr>bytes = 10, count = 16\<rparr>),
      (''s16'', \<lparr>bytes = 10, count = 17\<rparr>)]"

section \<open>Properties of the model\<close>

subsection \<open>Storing into a 64-bit variable\<close>

lemma wrap64_id: "- (2 ^ 63) \<le> x \<Longrightarrow> x < 2 ^ 63 \<Longrightarrow> wrap64 x = x"
  by (simp add: wrap64_def)

lemma wrap64_zero: "wrap64 0 = 0"
  by (simp add: wrap64_def)

lemma wrap64_range: "- (2 ^ 63) \<le> wrap64 x \<and> wrap64 x < 2 ^ 63"
proof -
  have "0 \<le> (x + 2 ^ 63) mod 2 ^ 64" "(x + 2 ^ 63) mod 2 ^ 64 < (2 ^ 64 :: int)"
    by simp_all
  then show ?thesis
    by (simp add: wrap64_def)
qed

lemma wrap64_mod: "wrap64 x mod 2 ^ 64 = x mod 2 ^ 64"
proof -
  have "wrap64 x mod 2 ^ 64 = ((x + 2 ^ 63) mod 2 ^ 64 - 2 ^ 63) mod 2 ^ 64"
    by (simp add: wrap64_def)
  also have "\<dots> = ((x + 2 ^ 63) - 2 ^ 63) mod 2 ^ 64"
    by (rule mod_diff_left_eq)
  finally show ?thesis by simp
qed

lemma wrap64_cong: "x mod 2 ^ 64 = y mod 2 ^ 64 \<Longrightarrow> wrap64 x = wrap64 y"
proof -
  assume a: "x mod 2 ^ 64 = y mod 2 ^ 64"
  have "(x + 2 ^ 63) mod 2 ^ 64 = (x mod 2 ^ 64 + 2 ^ 63) mod 2 ^ 64"
    by (simp add: mod_add_left_eq)
  also have "\<dots> = (y mod 2 ^ 64 + 2 ^ 63) mod 2 ^ 64"
    by (simp only: a)
  also have "\<dots> = (y + 2 ^ 63) mod 2 ^ 64"
    by (simp add: mod_add_left_eq)
  finally show ?thesis
    by (simp add: wrap64_def)
qed

lemma wrap64_add_left: "wrap64 (wrap64 a + b) = wrap64 (a + b)"
proof (rule wrap64_cong)
  have "(wrap64 a + b) mod 2 ^ 64 = (wrap64 a mod 2 ^ 64 + b) mod 2 ^ 64"
    by (simp add: mod_add_left_eq)
  also have "\<dots> = (a mod 2 ^ 64 + b) mod 2 ^ 64"
    by (simp only: wrap64_mod)
  also have "\<dots> = (a + b) mod 2 ^ 64"
    by (simp add: mod_add_left_eq)
  finally show "(wrap64 a + b) mod 2 ^ 64 = (a + b) mod 2 ^ 64" .
qed

lemma wrap64_add_right: "wrap64 (b + wrap64 a) = wrap64 (b + a)"
  using wrap64_add_left[of a b] by (simp add: add.commute)

subsection \<open>The map update\<close>

lemma entry_of_entry_add:
  "entry_of (entry_add k b c m) k' =
     (if k' = k
      then \<lparr>bytes = wrap64 (bytes (entry_of m k) + b), count = wrap64 (count (entry_of m k) + c)\<rparr>
      else entry_of m k')"
  by (induction m) (auto simp: entry_of_def)

lemma entry_of_agg_init: "entry_of (samples_map agg_init) k = \<lparr>bytes = 0, count = 0\<rparr>"
  by (simp add: entry_of_def agg_init_def)

lemma total_bytes_nonneg: "\<forall>e\<in>set m. 0 \<le> bytes (snd e) \<Longrightarrow> 0 \<le> total_bytes m"
  unfolding total_bytes_def by (induction m) auto

lemma entry_add_bytes_exact:
  assumes m: "\<forall>e\<in>set m. 0 \<le> bytes (snd e)"
    and b: "0 \<le> b" and t: "total_bytes m + b < 2 ^ 63"
  shows "total_bytes (entry_add k b c m) = total_bytes m + b \<and>
         (\<forall>e\<in>set (entry_add k b c m). 0 \<le> bytes (snd e))"
  using m t
proof (induction m)
  case Nil
  have "wrap64 b = b"
    using b Nil.prems(2) by (intro wrap64_id) (simp_all add: total_bytes_def)
  then show ?case using b by (simp add: total_bytes_def)
next
  case (Cons x m)
  obtain k' v where x: "x = (k', v)"
    by (cases x)
  have v: "0 \<le> bytes v"
    using Cons.prems(1) x by simp
  have rest: "\<forall>e\<in>set m. 0 \<le> bytes (snd e)"
    using Cons.prems(1) by simp
  have tot: "total_bytes (x # m) = bytes v + total_bytes m"
    by (simp add: total_bytes_def x)
  have rn: "0 \<le> total_bytes m"
    by (rule total_bytes_nonneg[OF rest])
  show ?case
  proof (cases "k' = k")
    case True
    have "wrap64 (bytes v + b) = bytes v + b"
      using v b rn Cons.prems(2) tot by (intro wrap64_id) simp_all
    then show ?thesis
      using True v b rest x by (simp add: total_bytes_def)
  next
    case False
    have "total_bytes m + b < 2 ^ 63"
      using v Cons.prems(2) tot by simp
    from Cons.IH[OF rest this] show ?thesis
      using False v x by (simp add: total_bytes_def)
  qed
qed

lemma total_bytes_entry_add_mod:
  "total_bytes (entry_add k b c m) mod 2 ^ 64 = (total_bytes m + b) mod 2 ^ 64"
proof (induction m)
  case Nil
  show ?case using wrap64_mod[of b] by (simp add: total_bytes_def)
next
  case (Cons x m)
  obtain k' v where x: "x = (k', v)"
    by (cases x)
  show ?case
  proof (cases "k' = k")
    case True
    have "(wrap64 (bytes v + b) + total_bytes m) mod 2 ^ 64 =
          (wrap64 (bytes v + b) mod 2 ^ 64 + total_bytes m) mod 2 ^ 64"
      by (simp add: mod_add_left_eq)
    also have "\<dots> = ((bytes v + b) mod 2 ^ 64 + total_bytes m) mod 2 ^ 64"
      by (simp only: wrap64_mod)
    also have "\<dots> = (bytes v + b + total_bytes m) mod 2 ^ 64"
      by (simp add: mod_add_left_eq)
    finally show ?thesis
      using True x by (simp add: total_bytes_def add.assoc add.commute add.left_commute)
  next
    case False
    have "(bytes v + total_bytes (entry_add k b c m)) mod 2 ^ 64 =
          (bytes v + total_bytes (entry_add k b c m) mod 2 ^ 64) mod 2 ^ 64"
      by (simp add: mod_add_right_eq)
    also have "\<dots> = (bytes v + (total_bytes m + b) mod 2 ^ 64) mod 2 ^ 64"
      by (simp only: Cons.IH)
    also have "\<dots> = (bytes v + (total_bytes m + b)) mod 2 ^ 64"
      by (simp add: mod_add_right_eq)
    finally show ?thesis
      using False x by (simp add: total_bytes_def add.assoc)
  qed
qed

lemma total_count_nonneg: "\<forall>e\<in>set m. 0 \<le> count (snd e) \<Longrightarrow> 0 \<le> total_count m"
  unfolding total_count_def by (induction m) auto

lemma entry_add_count_exact:
  assumes m: "\<forall>e\<in>set m. 0 \<le> count (snd e)"
    and c: "0 \<le> c" and t: "total_count m + c < 2 ^ 63"
  shows "total_count (entry_add k b c m) = total_count m + c \<and>
         (\<forall>e\<in>set (entry_add k b c m). 0 \<le> count (snd e))"
  using m t
proof (induction m)
  case Nil
  have "wrap64 c = c"
    using c Nil.prems(2) by (intro wrap64_id) (simp_all add: total_count_def)
  then show ?case using c by (simp add: total_count_def)
next
  case (Cons x m)
  obtain k' v where x: "x = (k', v)"
    by (cases x)
  have v: "0 \<le> count v"
    using Cons.prems(1) x by simp
  have rest: "\<forall>e\<in>set m. 0 \<le> count (snd e)"
    using Cons.prems(1) by simp
  have tot: "total_count (x # m) = count v + total_count m"
    by (simp add: total_count_def x)
  have rn: "0 \<le> total_count m"
    by (rule total_count_nonneg[OF rest])
  show ?case
  proof (cases "k' = k")
    case True
    have "wrap64 (count v + c) = count v + c"
      using v c rn Cons.prems(2) tot by (intro wrap64_id) simp_all
    then show ?thesis
      using True v c rest x by (simp add: total_count_def)
  next
    case False
    have "total_count m + c < 2 ^ 63"
      using v Cons.prems(2) tot by simp
    from Cons.IH[OF rest this] show ?thesis
      using False v x by (simp add: total_count_def)
  qed
qed

lemma total_count_entry_add_mod:
  "total_count (entry_add k b c m) mod 2 ^ 64 = (total_count m + c) mod 2 ^ 64"
proof (induction m)
  case Nil
  show ?case using wrap64_mod[of c] by (simp add: total_count_def)
next
  case (Cons x m)
  obtain k' v where x: "x = (k', v)"
    by (cases x)
  show ?case
  proof (cases "k' = k")
    case True
    have "(wrap64 (count v + c) + total_count m) mod 2 ^ 64 =
          (wrap64 (count v + c) mod 2 ^ 64 + total_count m) mod 2 ^ 64"
      by (simp add: mod_add_left_eq)
    also have "\<dots> = ((count v + c) mod 2 ^ 64 + total_count m) mod 2 ^ 64"
      by (simp only: wrap64_mod)
    also have "\<dots> = (count v + c + total_count m) mod 2 ^ 64"
      by (simp add: mod_add_left_eq)
    finally show ?thesis
      using True x by (simp add: total_count_def add.assoc add.commute add.left_commute)
  next
    case False
    have "(count v + total_count (entry_add k b c m)) mod 2 ^ 64 =
          (count v + total_count (entry_add k b c m) mod 2 ^ 64) mod 2 ^ 64"
      by (simp add: mod_add_right_eq)
    also have "\<dots> = (count v + (total_count m + c) mod 2 ^ 64) mod 2 ^ 64"
      by (simp only: Cons.IH)
    also have "\<dots> = (count v + (total_count m + c)) mod 2 ^ 64"
      by (simp add: mod_add_right_eq)
    finally show ?thesis
      using False x by (simp add: total_count_def add.assoc)
  qed
qed

lemma keys_entry_add:
  "map fst (entry_add k b c m) = (if k \<in> set (map fst m) then map fst m else map fst m @ [k])"
  by (induction m) (force simp: image_iff)+

lemma set_keys_entry_add: "set (map fst (entry_add k b c m)) = insert k (set (map fst m))"
  by (auto simp: keys_entry_add)


lemma distinct_entry_add: "distinct (map fst m) \<Longrightarrow> distinct (map fst (entry_add k b c m))"
  by (simp add: keys_entry_add)

subsection \<open>Symbolization\<close>

lemma symbolize_stack_eq:
  "symbolize_stack symbolize frames sstream failed =
     (sstream @ stack_key symbolize frames, failed + failures symbolize frames)"
  by (induction frames arbitrary: sstream failed)
     (auto simp: stack_key_def failures_def frame_line_def split: option.splits)

subsection \<open>The profile visitor\<close>

lemma profile_visit_eq:
  "profile_visit symbolize only_growth sample st =
     (if retained only_growth sample
      then \<lparr>failed_symbolizations = failed_symbolizations st + failures symbolize (stack sample),
            samples_map = entry_add (stack_key symbolize (stack sample))
                            (int (allocated_size sample)) 1 (samples_map st)\<rparr>
      else st)"
  by (auto simp: profile_visit_def retained_def symbolize_stack_eq)

lemma profile_iterate_filter:
  "profile_iterate symbolize only_growth profile st =
     profile_iterate symbolize only_growth (filter (retained only_growth) profile) st"
  by (induction profile arbitrary: st) (auto simp: profile_visit_eq)


lemma keys_profile_iterate:
  "fst ` set (samples_map (profile_iterate symbolize only_growth profile st)) =
     fst ` set (samples_map st) \<union>
     (\<lambda>s. stack_key symbolize (stack s)) ` {s \<in> set profile. retained only_growth s}"
proof (induction profile arbitrary: st)
  case Nil
  then show ?case by simp
next
  case (Cons s profile)
  have k: "fst ` set (entry_add k b c m) = insert k (fst ` set m)" for k b c m
    using set_keys_entry_add[of k b c m] by simp
  show ?case
    by (auto simp: Cons.IH profile_visit_eq k)
qed

lemma distinct_profile_iterate:
  "distinct (map fst (samples_map st)) \<Longrightarrow>
   distinct (map fst (samples_map (profile_iterate symbolize only_growth profile st)))"
  by (induction profile arbitrary: st) (auto simp: profile_visit_eq distinct_entry_add)

lemma filter_retained_positive:
  "filter (retained only_growth) (filter (\<lambda>s. 0 < sample_count s) profile) =
   filter (retained only_growth) profile"
  by (induction profile) (auto simp: retained_def)

lemma filter_retained_censored:
  "filter (retained True) (filter is_censored profile) = filter (retained True) profile"
  by (induction profile) (auto simp: retained_def)

lemma AggregateProfile_filter:
  "AggregateProfile symbolize only_growth profile =
   AggregateProfile symbolize only_growth (filter (retained only_growth) profile)"
  unfolding AggregateProfile_def by (rule profile_iterate_filter)

lemma AggregateProfile_positive:
  "AggregateProfile symbolize only_growth profile =
   AggregateProfile symbolize only_growth (filter (\<lambda>s. 0 < sample_count s) profile)"
proof -
  have "AggregateProfile symbolize only_growth (filter (\<lambda>s. 0 < sample_count s) profile) =
        AggregateProfile symbolize only_growth
          (filter (retained only_growth) (filter (\<lambda>s. 0 < sample_count s) profile))"
    by (rule AggregateProfile_filter)
  also have "\<dots> = AggregateProfile symbolize only_growth (filter (retained only_growth) profile)"
    by (simp only: filter_retained_positive)
  also have "\<dots> = AggregateProfile symbolize only_growth profile"
    by (rule AggregateProfile_filter[symmetric])
  finally show ?thesis by (rule sym)
qed

lemma AggregateProfile_censored:
  "AggregateProfile symbolize True profile =
   AggregateProfile symbolize True (filter is_censored profile)"
proof -
  have "AggregateProfile symbolize True (filter is_censored profile) =
        AggregateProfile symbolize True (filter (retained True) (filter is_censored profile))"
    by (rule AggregateProfile_filter)
  also have "\<dots> = AggregateProfile symbolize True (filter (retained True) profile)"
    by (simp only: filter_retained_censored)
  also have "\<dots> = AggregateProfile symbolize True profile"
    by (rule AggregateProfile_filter[symmetric])
  finally show ?thesis by (rule sym)
qed

lemma profile_iterate_append:
  "profile_iterate symbolize only_growth (xs @ ys) st =
     profile_iterate symbolize only_growth ys (profile_iterate symbolize only_growth xs st)"
  by (induction xs arbitrary: st) auto

lemma AggregateProfile_snoc:
  "AggregateProfile symbolize only_growth (profile @ [sample]) =
     profile_visit symbolize only_growth sample (AggregateProfile symbolize only_growth profile)"
  by (simp add: AggregateProfile_def profile_iterate_append)

lemma entry_of_AggregateProfile:
  "entry_of (samples_map (AggregateProfile symbolize only_growth profile)) k =
     \<lparr>bytes = wrap64 (\<Sum>s\<leftarrow>filter (\<lambda>s. retained only_growth s \<and> stack_key symbolize (stack s) = k)
                              profile. int (allocated_size s)),
      count = wrap64 (int (length (filter (\<lambda>s. retained only_growth s \<and>
                                              stack_key symbolize (stack s) = k) profile)))\<rparr>"
proof (induction profile rule: rev_induct)
  case Nil
  show ?case
    by (simp add: AggregateProfile_def entry_of_agg_init wrap64_zero)
next
  case (snoc s profile)
  show ?case
  proof (cases "retained only_growth s \<and> stack_key symbolize (stack s) = k")
    case True
    then show ?thesis
      by (simp add: AggregateProfile_snoc profile_visit_eq entry_of_entry_add snoc.IH
            wrap64_add_left wrap64_add_right add.commute[of 1])
  next
    case False
    then show ?thesis
      by (auto simp: AggregateProfile_snoc profile_visit_eq entry_of_entry_add snoc.IH)
  qed
qed

lemma total_bytes_profile_iterate_mod:
  "total_bytes (samples_map (profile_iterate symbolize only_growth profile st)) mod 2 ^ 64 =
     (total_bytes (samples_map st) +
      (\<Sum>s\<leftarrow>filter (retained only_growth) profile. int (allocated_size s))) mod 2 ^ 64"
proof (induction profile arbitrary: st)
  case Nil
  show ?case by simp
next
  case (Cons s profile)
  show ?case
  proof (cases "retained only_growth s")
    case True
    let ?m = "entry_add (stack_key symbolize (stack s)) (int (allocated_size s)) 1 (samples_map st)"
    let ?rest = "\<Sum>s\<leftarrow>filter (retained only_growth) profile. int (allocated_size s)"
    have v: "samples_map (profile_visit symbolize only_growth s st) = ?m"
      using True by (simp add: profile_visit_eq)
    have "total_bytes (samples_map (profile_iterate symbolize only_growth (s # profile) st))
            mod 2 ^ 64 =
          (total_bytes (samples_map (profile_visit symbolize only_growth s st)) + ?rest) mod 2 ^ 64"
      unfolding profile_iterate.simps by (rule Cons.IH)
    also have "\<dots> = (total_bytes ?m + ?rest) mod 2 ^ 64"
      by (simp only: v)
    also have "\<dots> = (total_bytes ?m mod 2 ^ 64 + ?rest) mod 2 ^ 64"
      by (simp add: mod_add_left_eq)
    also have "\<dots> = ((total_bytes (samples_map st) + int (allocated_size s)) mod 2 ^ 64 + ?rest)
                       mod 2 ^ 64"
      by (simp only: total_bytes_entry_add_mod)
    also have "\<dots> = (total_bytes (samples_map st) + int (allocated_size s) + ?rest) mod 2 ^ 64"
      by (simp add: mod_add_left_eq)
    also have "\<dots> = (total_bytes (samples_map st) +
        (\<Sum>s\<leftarrow>filter (retained only_growth) (s # profile). int (allocated_size s))) mod 2 ^ 64"
      using True by (simp add: add.assoc)
    finally show ?thesis .
  next
    case False
    then have v: "profile_visit symbolize only_growth s st = st"
      by (simp add: profile_visit_eq)
    from Cons.IH[of st] False show ?thesis
      unfolding profile_iterate.simps v by simp
  qed
qed

lemma profile_iterate_bytes_exact:
  "\<forall>e\<in>set (samples_map st). 0 \<le> bytes (snd e) \<Longrightarrow>
   total_bytes (samples_map st) +
     (\<Sum>s\<leftarrow>filter (retained only_growth) profile. int (allocated_size s)) < 2 ^ 63 \<Longrightarrow>
   total_bytes (samples_map (profile_iterate symbolize only_growth profile st)) =
     total_bytes (samples_map st) +
     (\<Sum>s\<leftarrow>filter (retained only_growth) profile. int (allocated_size s)) \<and>
   (\<forall>e\<in>set (samples_map (profile_iterate symbolize only_growth profile st)). 0 \<le> bytes (snd e))"
proof (induction profile arbitrary: st)
  case Nil
  then show ?case by simp
next
  case (Cons s profile)
  let ?rest = "\<Sum>s\<leftarrow>filter (retained only_growth) profile. int (allocated_size s)"
  have rest: "0 \<le> ?rest"
    by (rule sum_list_nonneg) auto
  show ?case
  proof (cases "retained only_growth s")
    case True
    let ?m = "entry_add (stack_key symbolize (stack s)) (int (allocated_size s)) 1 (samples_map st)"
    have t: "total_bytes (samples_map st) + int (allocated_size s) + ?rest < 2 ^ 63"
      using Cons.prems(2) True by (simp add: add.assoc)
    have "total_bytes (samples_map st) + int (allocated_size s) < 2 ^ 63"
      using t rest by linarith
    from entry_add_bytes_exact[OF Cons.prems(1) _ this, of "stack_key symbolize (stack s)" 1]
    have e: "total_bytes ?m = total_bytes (samples_map st) + int (allocated_size s)"
      and n: "\<forall>e\<in>set ?m. 0 \<le> bytes (snd e)"
      by simp_all
    have v: "samples_map (profile_visit symbolize only_growth s st) = ?m"
      using True by (simp add: profile_visit_eq)
    have "total_bytes (samples_map (profile_visit symbolize only_growth s st)) + ?rest < 2 ^ 63"
      unfolding v e using t .
    from Cons.IH[OF _ this] n show ?thesis
      using True unfolding profile_iterate.simps v e by (simp add: add.assoc)
  next
    case False
    then have v: "profile_visit symbolize only_growth s st = st"
      by (simp add: profile_visit_eq)
    from Cons.IH[of st] Cons.prems False show ?thesis
      unfolding profile_iterate.simps v by simp
  qed
qed

lemma profile_iterate_count_exact:
  "\<forall>e\<in>set (samples_map st). 0 \<le> count (snd e) \<Longrightarrow>
   total_count (samples_map st) + int (length (filter (retained only_growth) profile)) < 2 ^ 63 \<Longrightarrow>
   total_count (samples_map (profile_iterate symbolize only_growth profile st)) =
     total_count (samples_map st) + int (length (filter (retained only_growth) profile)) \<and>
   (\<forall>e\<in>set (samples_map (profile_iterate symbolize only_growth profile st)). 0 \<le> count (snd e))"
proof (induction profile arbitrary: st)
  case Nil
  then show ?case by simp
next
  case (Cons s profile)
  let ?rest = "int (length (filter (retained only_growth) profile))"
  show ?case
  proof (cases "retained only_growth s")
    case True
    let ?m = "entry_add (stack_key symbolize (stack s)) (int (allocated_size s)) 1 (samples_map st)"
    have t: "total_count (samples_map st) + 1 + ?rest < 2 ^ 63"
      using Cons.prems(2) True by simp
    have "total_count (samples_map st) + 1 < 2 ^ 63"
      using t by linarith
    from entry_add_count_exact[OF Cons.prems(1) _ this,
        of "stack_key symbolize (stack s)" "int (allocated_size s)"]
    have e: "total_count ?m = total_count (samples_map st) + 1"
      and n: "\<forall>e\<in>set ?m. 0 \<le> count (snd e)"
      by simp_all
    have v: "samples_map (profile_visit symbolize only_growth s st) = ?m"
      using True by (simp add: profile_visit_eq)
    have "total_count (samples_map (profile_visit symbolize only_growth s st)) + ?rest < 2 ^ 63"
      unfolding v e using t .
    from Cons.IH[OF _ this] n show ?thesis
      using True unfolding profile_iterate.simps v e by simp
  next
    case False
    then have v: "profile_visit symbolize only_growth s st = st"
      by (simp add: profile_visit_eq)
    from Cons.IH[of st] Cons.prems False show ?thesis
      unfolding profile_iterate.simps v by simp
  qed
qed

subsection \<open>Sorting\<close>

lemma strict_weak_order_sample_greater: "strict_weak_order (sample_greater order)"
  by (auto simp: strict_weak_order_def sample_greater_def)

lemma strict_weak_order_neg_trans:
  assumes "strict_weak_order cmp" "\<not> cmp b a" "\<not> cmp c b"
  shows "\<not> cmp c a"
proof
  assume ca: "cmp c a"
  have tr: "\<And>x y z. cmp x y \<Longrightarrow> cmp y z \<Longrightarrow> cmp x z"
    and inc: "\<And>x y z. \<not> cmp x y \<Longrightarrow> \<not> cmp y x \<Longrightarrow> \<not> cmp y z \<Longrightarrow> \<not> cmp z y \<Longrightarrow>
                        \<not> cmp x z \<and> \<not> cmp z x"
    using assms(1) unfolding strict_weak_order_def by blast+
  have ab: "\<not> cmp a b"
  proof
    assume "cmp a b"
    with ca have "cmp c b" by (rule tr)
    with assms(3) show False by simp
  qed
  have bc: "\<not> cmp b c"
  proof
    assume "cmp b c"
    from this ca have "cmp b a" by (rule tr)
    with assms(2) show False by simp
  qed
  from inc[OF ab assms(2) bc assms(3)] ca show False by simp
qed

lemma mset_insert_sorted: "mset (insert_sorted cmp x xs) = add_mset x (mset xs)"
  by (induction xs) auto

lemma mset_insertion_sort: "mset (insertion_sort cmp xs) = mset xs"
  by (induction xs) (auto simp: insertion_sort_def mset_insert_sorted)

lemma set_insert_sorted: "set (insert_sorted cmp x xs) = insert x (set xs)"
  by (induction xs) auto

lemma sorted_insert_sorted:
  assumes swo: "strict_weak_order cmp"
  shows "sorted_wrt (\<lambda>a b. \<not> cmp b a) xs \<Longrightarrow>
         sorted_wrt (\<lambda>a b. \<not> cmp b a) (insert_sorted cmp x xs)"
proof (induction xs)
  case Nil
  then show ?case by simp
next
  case (Cons y ys)
  have irr: "\<And>x. \<not> cmp x x" and tr: "\<And>x y z. cmp x y \<Longrightarrow> cmp y z \<Longrightarrow> cmp x z"
    using swo unfolding strict_weak_order_def by blast+
  show ?case
  proof (cases "cmp y x")
    case True
    have "\<not> cmp x y" using True irr tr by blast
    then show ?thesis using True Cons by (auto simp: set_insert_sorted)
  next
    case False
    have "\<not> cmp z x" if "z \<in> set ys" for z
    proof -
      have "\<not> cmp z y" using Cons.prems that by auto
      with False show ?thesis by (rule strict_weak_order_neg_trans[OF swo])
    qed
    then show ?thesis using False Cons.prems by auto
  qed
qed

lemma sorted_insertion_sort:
  "strict_weak_order cmp \<Longrightarrow> sorted_wrt (\<lambda>a b. \<not> cmp b a) (insertion_sort cmp xs)"
  by (induction xs) (auto simp: insertion_sort_def sorted_insert_sorted)

lemma insertion_sort_contract: "std_sort_contract insertion_sort"
  by (simp add: std_sort_contract_def mset_insertion_sort sorted_insertion_sort)

lemma sort_mset:
  "std_sort_contract std_sort \<Longrightarrow> mset (SortSamplesByOrder std_sort samples order) = mset samples"
  by (simp add: std_sort_contract_def SortSamplesByOrder_def strict_weak_order_sample_greater)

lemma sort_set:
  "std_sort_contract std_sort \<Longrightarrow> set (SortSamplesByOrder std_sort samples order) = set samples"
  using sort_mset[of std_sort samples order] by (rule mset_eq_setD)

lemma sort_length:
  "std_sort_contract std_sort \<Longrightarrow> length (SortSamplesByOrder std_sort samples order) = length samples"
  using sort_mset[of std_sort samples order] by (auto dest: mset_eq_length)

lemma sort_sorted:
  "std_sort_contract std_sort \<Longrightarrow>
   sorted_wrt (\<lambda>a b. \<not> sample_greater order b a) (SortSamplesByOrder std_sort samples order)"
  by (simp add: std_sort_contract_def SortSamplesByOrder_def strict_weak_order_sample_greater)

lemma sample_greater_sort_key: "sample_greater order a b \<longleftrightarrow> sort_key order b < sort_key order a"
  by (cases order) (simp_all add: sample_greater_def sort_key_def)

lemma sort_sorted_key:
  assumes "std_sort_contract std_sort"
  shows "sorted_wrt (\<lambda>a b. sort_key order b \<le> sort_key order a)
           (SortSamplesByOrder std_sort samples order)"
proof -
  have "(\<lambda>a b. \<not> sample_greater order b a) = (\<lambda>a b. sort_key order b \<le> sort_key order a)"
    by (intro ext) (simp add: sample_greater_sort_key not_less)
  with sort_sorted[OF assms, of order samples] show ?thesis
    by simp
qed

lemma sorted_wrt_adjacent:
  "sorted_wrt P xs \<Longrightarrow> Suc i < length xs \<Longrightarrow> P (xs ! i) (xs ! Suc i)"
  by (simp add: sorted_wrt_iff_nth_less)

lemma sort_adjacent:
  assumes "std_sort_contract std_sort"
    and "Suc i < length (SortSamplesByOrder std_sort samples order)"
  shows "sort_key order (SortSamplesByOrder std_sort samples order ! Suc i)
           \<le> sort_key order (SortSamplesByOrder std_sort samples order ! i)"
  using sorted_wrt_adjacent[OF sort_sorted_key[OF assms(1)] assms(2)] .

lemma sum_list_map_mset:
  fixes f :: "'a \<Rightarrow> int"
  assumes "mset xs = mset ys"
  shows "sum_list (map f xs) = sum_list (map f ys)"
proof -
  from assms have "mset (map f xs) = mset (map f ys)"
    by simp
  then have "sum_mset (mset (map f xs)) = sum_mset (mset (map f ys))"
    by (rule arg_cong)
  then show ?thesis
    by (simp only: sum_mset_sum_list)
qed

lemma total_bytes_mset: "mset xs = mset ys \<Longrightarrow> total_bytes xs = total_bytes ys"
  unfolding total_bytes_def by (rule sum_list_map_mset)

lemma total_count_mset: "mset xs = mset ys \<Longrightarrow> total_count xs = total_count ys"
  unfolding total_count_def by (rule sum_list_map_mset)

subsection \<open>The snapshot loop\<close>

declare snapshot_loop.simps [simp del]

lemma GetSampleCount_at: "GetSampleCount (pre @ cnt # tl_arr) (length pre) = cnt"
  by (simp add: GetSampleCount_def)

lemma GetSampleSize_at: "GetSampleSize (pre @ cnt # sz # tl_arr) (length pre) = sz"
  by (simp add: GetSampleSize_def nth_append)

lemma GetSampleDepth_at: "GetSampleDepth (pre @ cnt # sz # d # tl_arr) (length pre) = d"
  by (simp add: GetSampleDepth_def nth_append)

lemma GetSampleProgramCounter_at:
  "map (GetSampleProgramCounter (pre @ cnt # sz # d # frames @ tl_arr) (length pre)) [0..<length frames] = frames"
  by (rule nth_equalityI) (simp_all add: GetSampleProgramCounter_def nth_append)

lemma snapshot_visit_eq:
  "snapshot_visit symbolize samples sample st =
     \<lparr>failed_symbolizations = failed_symbolizations st +
        failures symbolize
          (map (GetSampleProgramCounter samples sample) [0..<GetSampleDepth samples sample]),
      samples_map =
        entry_add
          (stack_key symbolize
             (map (GetSampleProgramCounter samples sample) [0..<GetSampleDepth samples sample]))
          (int (GetSampleSize samples sample)) (int (GetSampleCount samples sample))
          (samples_map st)\<rparr>"
  by (simp add: snapshot_visit_def symbolize_stack_eq)

lemma snapshot_visit_flatten:
  "snapshot_visit symbolize (pre @ flatten_trace (cnt, sz, frames) @ tl_arr) (length pre) st =
     add_trace symbolize (cnt, sz, frames) st"
  by (simp add: snapshot_visit_def GetSampleCount_at GetSampleSize_at GetSampleDepth_at
        GetSampleProgramCounter_at symbolize_stack_eq)

lemma snapshot_loop_sentinel:
  "snapshot_loop symbolize (pre @ 0 # rest) (length pre) st = Inr st"
  by (subst snapshot_loop.simps) (simp add: GetSampleCount_at)

lemma snapshot_loop_step:
  assumes "cnt \<noteq> 0"
  shows "snapshot_loop symbolize (pre @ flatten_trace (cnt, sz, frames) @ tl_arr) (length pre) st =
         snapshot_loop symbolize (pre @ flatten_trace (cnt, sz, frames) @ tl_arr)
           (length (pre @ flatten_trace (cnt, sz, frames))) (add_trace symbolize (cnt, sz, frames) st)"
proof -
  let ?arr = "pre @ flatten_trace (cnt, sz, frames) @ tl_arr"
  have c: "GetSampleCount ?arr (length pre) = cnt"
    by (simp add: GetSampleCount_at)
  have d: "GetSampleDepth ?arr (length pre) = length frames"
    by (simp add: GetSampleDepth_at)
  have v: "snapshot_visit symbolize ?arr (length pre) st = add_trace symbolize (cnt, sz, frames) st"
    by (rule snapshot_visit_flatten)
  have len: "length (flatten_trace (cnt, sz, frames)) = 3 + length frames"
    by simp
  show ?thesis
    by (subst snapshot_loop.simps)
       (simp add: c d v len assms add.assoc del: flatten_trace.simps add_trace.simps)
qed

lemma snapshot_loop_flatten:
  "\<forall>t\<in>set traces. fst t \<noteq> 0 \<Longrightarrow>
   snapshot_loop symbolize (pre @ flatten traces @ 0 # rest) (length pre) st =
     Inr (fold (add_trace symbolize) traces st)"
proof (induction traces arbitrary: pre st)
  case Nil
  then show ?case by (simp add: flatten_def snapshot_loop_sentinel)
next
  case (Cons t traces)
  obtain cnt sz frames where t: "t = (cnt, sz, frames)"
    by (cases t) auto
  have nz: "cnt \<noteq> 0" using Cons.prems t by simp
  have arr: "pre @ flatten (t # traces) @ 0 # rest =
             pre @ flatten_trace (cnt, sz, frames) @ (flatten traces @ 0 # rest)"
    by (simp add: flatten_def t)
  have arr': "pre @ flatten_trace (cnt, sz, frames) @ (flatten traces @ 0 # rest) =
              (pre @ flatten_trace (cnt, sz, frames)) @ flatten traces @ 0 # rest"
    by simp
  have "snapshot_loop symbolize (pre @ flatten (t # traces) @ 0 # rest) (length pre) st =
        snapshot_loop symbolize ((pre @ flatten_trace (cnt, sz, frames)) @ flatten traces @ 0 # rest)
          (length (pre @ flatten_trace (cnt, sz, frames))) (add_trace symbolize (cnt, sz, frames) st)"
    unfolding arr by (subst snapshot_loop_step[OF nz]) (simp only: arr')
  also have "\<dots> = Inr (fold (add_trace symbolize) traces (add_trace symbolize (cnt, sz, frames) st))"
    using Cons.prems by (intro Cons.IH) simp
  finally show ?case by (simp add: t)
qed

lemma AggregateHeapSnapshot_flatten:
  "\<forall>t\<in>set traces. fst t \<noteq> 0 \<Longrightarrow>
   AggregateHeapSnapshot symbolize (flatten traces @ 0 # rest) =
     Inr (fold (add_trace symbolize) traces agg_init)"
  using snapshot_loop_flatten[of traces symbolize "[]" rest agg_init]
  by (simp add: AggregateHeapSnapshot_def)

lemma failed_fold_add_trace:
  "failed_symbolizations (fold (add_trace symbolize) traces st) =
     failed_symbolizations st + (\<Sum>t\<leftarrow>traces. failures symbolize (snd (snd t)))"
proof (induction traces arbitrary: st)
  case Nil
  then show ?case by simp
next
  case (Cons t traces)
  obtain cnt sz frames where t: "t = (cnt, sz, frames)"
    by (cases t) auto
  show ?case
    by (simp add: Cons.IH t)
qed


lemma entry_of_fold_add_trace:
  "entry_of (samples_map (fold (add_trace symbolize) traces agg_init)) k =
     \<lparr>bytes = wrap64 (\<Sum>t\<leftarrow>filter (\<lambda>t. trace_key symbolize t = k) traces. int (fst (snd t))),
      count = wrap64 (\<Sum>t\<leftarrow>filter (\<lambda>t. trace_key symbolize t = k) traces. int (fst t))\<rparr>"
proof (induction traces rule: rev_induct)
  case Nil
  show ?case
    by (simp add: entry_of_agg_init wrap64_zero)
next
  case (snoc t traces)
  obtain cnt sz frames where t: "t = (cnt, sz, frames)"
    by (cases t) auto
  have e: "entry_of (samples_map (add_trace symbolize (cnt, sz, frames) st')) k =
       (if k = stack_key symbolize frames
        then \<lparr>bytes = wrap64 (bytes (entry_of (samples_map st') k) + int sz),
              count = wrap64 (count (entry_of (samples_map st') k) + int cnt)\<rparr>
        else entry_of (samples_map st') k)" for st'
    by (simp add: entry_of_entry_add)
  show ?case
  proof (cases "trace_key symbolize t = k")
    case True
    then have kk: "stack_key symbolize frames = k"
      by (simp add: t trace_key_def)
    have f: "filter (\<lambda>t. trace_key symbolize t = k) (traces @ [t]) =
             filter (\<lambda>t. trace_key symbolize t = k) traces @ [t]"
      using True by simp
    show ?thesis
      unfolding f using kk
      by (simp add: t e snoc.IH wrap64_add_left del: add_trace.simps)
  next
    case False
    then have kk: "k \<noteq> stack_key symbolize frames"
      by (auto simp: t trace_key_def)
    have f: "filter (\<lambda>t. trace_key symbolize t = k) (traces @ [t]) =
             filter (\<lambda>t. trace_key symbolize t = k) traces"
      using False by simp
    show ?thesis
      unfolding f using kk
      by (simp add: t e snoc.IH del: add_trace.simps)
  qed
qed

lemma fold_add_trace_exact:
  "\<forall>e\<in>set (samples_map st). 0 \<le> bytes (snd e) \<Longrightarrow>
   \<forall>e\<in>set (samples_map st). 0 \<le> count (snd e) \<Longrightarrow>
   total_bytes (samples_map st) + (\<Sum>t\<leftarrow>traces. int (fst (snd t))) < 2 ^ 63 \<Longrightarrow>
   total_count (samples_map st) + (\<Sum>t\<leftarrow>traces. int (fst t)) < 2 ^ 63 \<Longrightarrow>
   (\<forall>e\<in>set (samples_map (fold (add_trace symbolize) traces st)).
      0 \<le> bytes (snd e) \<and> 0 \<le> count (snd e))"
proof (induction traces arbitrary: st)
  case Nil
  then show ?case by simp
next
  case (Cons t traces)
  obtain cnt sz frames where t: "t = (cnt, sz, frames)"
    by (cases t) auto
  let ?m = "entry_add (stack_key symbolize frames) (int sz) (int cnt) (samples_map st)"
  have rb: "0 \<le> (\<Sum>t\<leftarrow>traces. int (fst (snd t)))" and rc: "0 \<le> (\<Sum>t\<leftarrow>traces. int (fst t))"
    by (rule sum_list_nonneg, auto)+
  have tb: "total_bytes (samples_map st) + int sz + (\<Sum>t\<leftarrow>traces. int (fst (snd t))) < 2 ^ 63"
    using Cons.prems(3) by (simp add: t add.assoc)
  have tc: "total_count (samples_map st) + int cnt + (\<Sum>t\<leftarrow>traces. int (fst t)) < 2 ^ 63"
    using Cons.prems(4) by (simp add: t add.assoc)
  have "total_bytes (samples_map st) + int sz < 2 ^ 63"
    using tb rb by linarith
  from entry_add_bytes_exact[OF Cons.prems(1) _ this, of "stack_key symbolize frames" "int cnt"]
  have eb: "total_bytes ?m = total_bytes (samples_map st) + int sz"
    and nb: "\<forall>e\<in>set ?m. 0 \<le> bytes (snd e)"
    by simp_all
  have "total_count (samples_map st) + int cnt < 2 ^ 63"
    using tc rc by linarith
  from entry_add_count_exact[OF Cons.prems(2) _ this, of "stack_key symbolize frames" "int sz"]
  have ec: "total_count ?m = total_count (samples_map st) + int cnt"
    and nc: "\<forall>e\<in>set ?m. 0 \<le> count (snd e)"
    by simp_all
  have v: "samples_map (add_trace symbolize (cnt, sz, frames) st) = ?m"
    by simp
  have "\<forall>e\<in>set (samples_map (fold (add_trace symbolize) traces
            (add_trace symbolize (cnt, sz, frames) st))). 0 \<le> bytes (snd e) \<and> 0 \<le> count (snd e)"
  proof (rule Cons.IH)
    show "\<forall>e\<in>set (samples_map (add_trace symbolize (cnt, sz, frames) st)). 0 \<le> bytes (snd e)"
      unfolding v by (rule nb)
    show "\<forall>e\<in>set (samples_map (add_trace symbolize (cnt, sz, frames) st)). 0 \<le> count (snd e)"
      unfolding v by (rule nc)
    show "total_bytes (samples_map (add_trace symbolize (cnt, sz, frames) st)) +
            (\<Sum>t\<leftarrow>traces. int (fst (snd t))) < 2 ^ 63"
      unfolding v eb by (rule tb)
    show "total_count (samples_map (add_trace symbolize (cnt, sz, frames) st)) +
            (\<Sum>t\<leftarrow>traces. int (fst t)) < 2 ^ 63"
      unfolding v ec by (rule tc)
  qed
  then show ?case
    by (simp add: t)
qed

subsection \<open>The renderer\<close>

lemma avg_bytes_Inr: "avg_bytes info = Inr (avg_column info)"
  by (simp add: avg_column_def avg_bytes_def int64_div_def trunc_div_def)

lemma avg_column_zero: "count info \<le> 0 \<Longrightarrow> avg_column info = 0"
  by (simp add: avg_column_def avg_bytes_def)

lemma avg_column_floor:
  "0 < count info \<Longrightarrow> 0 \<le> bytes info \<Longrightarrow> avg_column info = bytes info div count info"
  by (cases "bytes info = 0") (simp_all add: avg_column_def avg_bytes_def int64_div_def trunc_div_def)

lemma avg_column_trunc:
  "0 < count info \<Longrightarrow> bytes info < 0 \<Longrightarrow> avg_column info = - ((- bytes info) div count info)"
  by (simp add: avg_column_def avg_bytes_def int64_div_def trunc_div_def)

declare table_rows.simps [simp del]

lemma table_rows_eq:
  "table_rows esc samples max_call_stacks i out =
     Inr (out @ concat (map (table_row esc)
            (take (min max_call_stacks (length samples) - i) (drop i samples))))"
proof (induction esc samples max_call_stacks i out rule: table_rows.induct)
  case (1 esc samples max_call_stacks i out)
  show ?case
  proof (cases "i < min max_call_stacks (length samples)")
    case True
    then have il: "i < length samples" by simp
    have a: "at samples i = Inr (samples ! i)"
      using il by (simp add: at_def)
    have d: "take (min max_call_stacks (length samples) - i) (drop i samples) =
             samples ! i # take (min max_call_stacks (length samples) - Suc i) (drop (Suc i) samples)"
    proof -
      obtain k where k: "min max_call_stacks (length samples) - i = Suc k"
        using True by (cases "min max_call_stacks (length samples) - i") auto
      then have k': "min max_call_stacks (length samples) - Suc i = k" by simp
      show ?thesis
        unfolding k k' using il by (simp add: Cons_nth_drop_Suc[symmetric])
    qed
    have "table_rows esc samples max_call_stacks i out =
          table_rows esc samples max_call_stacks (Suc i)
            (out @ row_chunks esc (samples ! i) (avg_column (snd (samples ! i))))"
      using True by (subst table_rows.simps) (simp add: a avg_bytes_Inr)
    also have "\<dots> = Inr ((out @ row_chunks esc (samples ! i) (avg_column (snd (samples ! i)))) @
                 concat (map (table_row esc)
                   (take (min max_call_stacks (length samples) - Suc i) (drop (Suc i) samples))))"
      by (rule "1.IH"[OF True a avg_bytes_Inr])
    finally show ?thesis
      by (simp add: d table_row_def[of esc "samples ! i"])
  next
    case False
    then show ?thesis
      by (subst table_rows.simps) auto
  qed
qed

lemma GenerateTable_eq:
  "GenerateTable esc output samples title max_call_stacks =
     Inr (output @ [title_chunk max_call_stacks title] @
          (if max_call_stacks < length samples
           then [truncation_notice (int (length samples - max_call_stacks))] else []) @
          table_head @
          concat (map (table_row esc) (take (min max_call_stacks (length samples)) samples)) @
          [Lit ''</table>''])"
  by (simp add: GenerateTable_def table_rows_eq Let_def)

lemma notice_notin_row: "truncation_notice n \<notin> set (table_row esc e)"
  by (simp add: truncation_notice_def table_row_def row_chunks_def)

lemma notice_notin_rows: "truncation_notice n \<notin> set (concat (map (table_row esc) es))"
  by (simp add: notice_notin_row)

lemma notice_notin_head: "truncation_notice n \<notin> set table_head"
  by (simp add: truncation_notice_def table_head_def)

lemma notice_not_title: "truncation_notice n \<noteq> title_chunk m title"
  by (simp add: truncation_notice_def title_chunk_def)

lemma notice_inj: "truncation_notice n = truncation_notice m \<longleftrightarrow> n = m"
  by (simp add: truncation_notice_def)

lemma row_marker_count:
  "length (filter (\<lambda>c. c = Lit ''<tr>'') (concat (map (table_row esc) es))) = length es"
  by (induction es) (simp_all add: table_row_def row_chunks_def)

subsection \<open>The concrete inputs, evaluated\<close>

lemma example_retained_all:
  "filter (retained False) example_profile = [sample_a, sample_b, sample_c]"
  by (simp add: example_profile_def retained_def sample_a_def sample_b_def sample_c_def
        sample_dealloc_def)

lemma example_retained_growth:
  "filter (retained True) example_profile = [sample_a, sample_c]"
  by (simp add: example_profile_def retained_def sample_a_def sample_b_def sample_c_def
        sample_dealloc_def)

lemma example_positive:
  "filter (\<lambda>s. 0 < sample_count s) example_profile = [sample_a, sample_b, sample_c]"
  by (simp add: example_profile_def sample_a_def sample_b_def sample_c_def sample_dealloc_def)

lemma example_censored:
  "filter is_censored example_profile = [sample_a, sample_dealloc, sample_c]"
  by (simp add: example_profile_def sample_a_def sample_b_def sample_c_def sample_dealloc_def)

lemma example_aggregate_all:
  "AggregateProfile example_symbolize False example_profile =
     \<lparr>failed_symbolizations = 3,
      samples_map =
        [(''foo'' @ endl @ ''bar'' @ endl, \<lparr>bytes = 400, count = 2\<rparr>),
         (''Failed to symbolize'' @ endl @ ''Failed to symbolize'' @ endl @
          ''Failed to symbolize'' @ endl, \<lparr>bytes = 50, count = 1\<rparr>)]\<rparr>"
  by (simp add: AggregateProfile_def example_profile_def profile_visit_eq retained_def agg_init_def
        stack_key_def frame_line_def failures_def example_symbolize_def wrap64_def
        sample_a_def sample_b_def sample_c_def sample_dealloc_def)

lemma example_aggregate_growth:
  "AggregateProfile example_symbolize True example_profile =
     \<lparr>failed_symbolizations = 3,
      samples_map =
        [(''foo'' @ endl @ ''bar'' @ endl, \<lparr>bytes = 100, count = 1\<rparr>),
         (''Failed to symbolize'' @ endl @ ''Failed to symbolize'' @ endl @
          ''Failed to symbolize'' @ endl, \<lparr>bytes = 50, count = 1\<rparr>)]\<rparr>"
  by (simp add: AggregateProfile_def example_profile_def profile_visit_eq retained_def agg_init_def
        stack_key_def frame_line_def failures_def example_symbolize_def wrap64_def
        sample_a_def sample_b_def sample_c_def sample_dealloc_def)

lemma example_aggregate_c:
  "AggregateProfile example_symbolize False [sample_c] =
     \<lparr>failed_symbolizations = 3,
      samples_map =
        [(''Failed to symbolize'' @ endl @ ''Failed to symbolize'' @ endl @
          ''Failed to symbolize'' @ endl, \<lparr>bytes = 50, count = 1\<rparr>)]\<rparr>"
  by (simp add: AggregateProfile_def profile_visit_eq retained_def agg_init_def
        stack_key_def frame_line_def failures_def example_symbolize_def wrap64_def sample_c_def)

lemma example_aggregate_huge:
  "AggregateProfile example_symbolize False [sample_huge] =
     \<lparr>failed_symbolizations = 0,
      samples_map = [(''foo'' @ endl, \<lparr>bytes = - 9223372036854775808, count = 1\<rparr>)]\<rparr>"
  by (simp add: AggregateProfile_def profile_visit_eq retained_def agg_init_def
        stack_key_def frame_line_def failures_def example_symbolize_def wrap64_def sample_huge_def)

lemma example_sorted_all:
  "AggregateAndSortProfile insertion_sort example_symbolize example_profile False kBytes =
     [(''foo'' @ endl @ ''bar'' @ endl, \<lparr>bytes = 400, count = 2\<rparr>),
      (''Failed to symbolize'' @ endl @ ''Failed to symbolize'' @ endl @
       ''Failed to symbolize'' @ endl, \<lparr>bytes = 50, count = 1\<rparr>)]"
  by (simp add: AggregateAndSortProfile_def example_aggregate_all SortSamplesByOrder_def
        insertion_sort_def sample_greater_def)

lemma example_entries_by_bytes:
  "SortSamplesByOrder insertion_sort example_entries kBytes =
     [(''c'', \<lparr>bytes = 30, count = 0\<rparr>),
      (''a'', \<lparr>bytes = 10, count = 1\<rparr>),
      (''b'', \<lparr>bytes = 10, count = 4\<rparr>)]"
  by (simp add: SortSamplesByOrder_def insertion_sort_def example_entries_def sample_greater_def)

lemma example_entries_by_count:
  "SortSamplesByOrder insertion_sort example_entries kCount =
     [(''b'', \<lparr>bytes = 10, count = 4\<rparr>),
      (''a'', \<lparr>bytes = 10, count = 1\<rparr>),
      (''c'', \<lparr>bytes = 30, count = 0\<rparr>)]"
  by (simp add: SortSamplesByOrder_def insertion_sort_def example_entries_def sample_greater_def)

lemma example_entries_libstdcxx:
  "libstdcxx_sort (sample_greater kBytes) example_entries =
     Inr [(''c'', \<lparr>bytes = 30, count = 0\<rparr>),
          (''a'', \<lparr>bytes = 10, count = 1\<rparr>),
          (''b'', \<lparr>bytes = 10, count = 4\<rparr>)]"
  by code_simp

lemma tied_entries_libstdcxx:
  "libstdcxx_sort (sample_greater kBytes) tied_entries =
     Inr [(''s08'', \<lparr>bytes = 10, count = 9\<rparr>), (''s16'', \<lparr>bytes = 10, count = 17\<rparr>),
          (''s15'', \<lparr>bytes = 10, count = 16\<rparr>), (''s14'', \<lparr>bytes = 10, count = 15\<rparr>),
          (''s13'', \<lparr>bytes = 10, count = 14\<rparr>), (''s12'', \<lparr>bytes = 10, count = 13\<rparr>),
          (''s11'', \<lparr>bytes = 10, count = 12\<rparr>), (''s10'', \<lparr>bytes = 10, count = 11\<rparr>),
          (''s09'', \<lparr>bytes = 10, count = 10\<rparr>), (''s00'', \<lparr>bytes = 10, count = 1\<rparr>),
          (''s07'', \<lparr>bytes = 10, count = 8\<rparr>), (''s06'', \<lparr>bytes = 10, count = 7\<rparr>),
          (''s05'', \<lparr>bytes = 10, count = 6\<rparr>), (''s04'', \<lparr>bytes = 10, count = 5\<rparr>),
          (''s03'', \<lparr>bytes = 10, count = 4\<rparr>), (''s02'', \<lparr>bytes = 10, count = 3\<rparr>),
          (''s01'', \<lparr>bytes = 10, count = 2\<rparr>)]"
  by code_simp

lemma example_rows:
  "take (min 2 (length example_entries)) example_entries =
     [(''a'', \<lparr>bytes = 10, count = 1\<rparr>), (''b'', \<lparr>bytes = 10, count = 4\<rparr>)]"
  by (simp add: example_entries_def)

lemma example_snapshot_flatten: "example_snapshot = flatten example_traces @ 0 # [5, 4096, 1, 2]"
  by (simp add: example_snapshot_def example_traces_def flatten_def)

lemma example_fold:
  "fold (add_trace example_symbolize) example_traces agg_init =
     \<lparr>failed_symbolizations = 1,
      samples_map =
        [(''foo'' @ endl @ ''bar'' @ endl, \<lparr>bytes = 128, count = 2\<rparr>),
         (''Failed to symbolize'' @ endl, \<lparr>bytes = 64, count = 1\<rparr>)]\<rparr>"
  by (simp add: example_traces_def agg_init_def stack_key_def frame_line_def failures_def
        example_symbolize_def wrap64_def)

lemma example_heap_aggregate:
  "AggregateHeapSnapshot example_symbolize example_snapshot =
     Inr \<lparr>failed_symbolizations = 1,
          samples_map =
            [(''foo'' @ endl @ ''bar'' @ endl, \<lparr>bytes = 128, count = 2\<rparr>),
             (''Failed to symbolize'' @ endl, \<lparr>bytes = 64, count = 1\<rparr>)]\<rparr>"
proof -
  have "\<forall>t\<in>set example_traces. fst t \<noteq> 0"
    by (simp add: example_traces_def)
  then show ?thesis
    unfolding example_snapshot_flatten example_fold[symmetric]
    by (rule AggregateHeapSnapshot_flatten)
qed

lemma example_heap_wrapped:
  "AggregateHeapSnapshot example_symbolize wrapped_snapshot =
     Inr \<lparr>failed_symbolizations = 0,
          samples_map = [(''foo'' @ endl, \<lparr>bytes = - 9223372036854775808, count = - 5\<rparr>)]\<rparr>"
proof -
  have f: "wrapped_snapshot = flatten [(18446744073709551611, 9223372036854775808, [1])] @ 0 # []"
    by (simp add: wrapped_snapshot_def flatten_def)
  show ?thesis
    unfolding f
    by (subst AggregateHeapSnapshot_flatten)
       (simp_all add: agg_init_def stack_key_def frame_line_def failures_def
          example_symbolize_def wrap64_def)
qed

lemma example_heap_negative:
  "AggregateHeapSnapshot example_symbolize negative_snapshot =
     Inr \<lparr>failed_symbolizations = 0,
          samples_map = [(''foo'' @ endl, \<lparr>bytes = - 7, count = 2\<rparr>)]\<rparr>"
proof -
  have f: "negative_snapshot = flatten [(2, 18446744073709551609, [1])] @ 0 # []"
    by (simp add: negative_snapshot_def flatten_def)
  show ?thesis
    unfolding f
    by (subst AggregateHeapSnapshot_flatten)
       (simp_all add: agg_init_def stack_key_def frame_line_def failures_def
          example_symbolize_def wrap64_def)
qed

section \<open>The claims\<close>

subsection \<open>C1: what a retained sample adds\<close>

text \<open>
  C1, as stated, has the count of an entry grow by the sample's count in both backends.
  The visitor of the TCMalloc profile executes \<^verbatim>\<open>++entry.count\<close>: a retained sample of
  count 3 raises the count of its entry from 0 to 1, and a profile of that one sample
  aggregates to an entry of count 1.
\<close>

theorem profile_count_counterexample:
  "retained False sample_c \<and>
   sample_count sample_c = 3 \<and>
   count (entry_of (samples_map agg_init) (stack_key example_symbolize (stack sample_c))) = 0 \<and>
   count (entry_of (samples_map (profile_visit example_symbolize False sample_c agg_init))
            (stack_key example_symbolize (stack sample_c))) = 1 \<and>
   count (entry_of (samples_map (profile_visit example_symbolize False sample_c agg_init))
            (stack_key example_symbolize (stack sample_c))) \<noteq>
     count (entry_of (samples_map agg_init) (stack_key example_symbolize (stack sample_c))) +
     sample_count sample_c \<and>
   samples_map (AggregateProfile example_symbolize False [sample_c]) =
     [(''Failed to symbolize'' @ endl @ ''Failed to symbolize'' @ endl @
       ''Failed to symbolize'' @ endl, \<lparr>bytes = 50, count = 1\<rparr>)]"
proof -
  have r: "retained False sample_c" "sample_count sample_c = 3"
    by (simp_all add: retained_def sample_c_def)
  have z: "count (entry_of (samples_map agg_init) (stack_key example_symbolize (stack sample_c))) = 0"
    by (simp add: entry_of_agg_init)
  have v: "count (entry_of (samples_map (profile_visit example_symbolize False sample_c agg_init))
            (stack_key example_symbolize (stack sample_c))) = 1"
    using r(1) by (simp add: profile_visit_eq entry_of_entry_add entry_of_agg_init wrap64_def)
  show ?thesis
    unfolding v z r(2) example_aggregate_c using r(1) by simp
qed

text \<open>
  C1, amended. For every retained sample (count above 0, and censored in growth-only
  mode) the visitor of the TCMalloc profile adds the sample's allocated size to the
  cumulative bytes of the entry of its key and adds 1 to the entry's cumulative count.
  The loop body of the gperftools snapshot adds the sample's size to the cumulative
  bytes and the sample's count to the cumulative count. Either leaves every other entry
  as it was. After a whole profile, the entry of a key holds the allocated sizes summed
  over the retained samples with that key, and their number. The totals are 64-bit
  variables: what is stored is the sum brought into the signed 64-bit range, which is
  the sum itself whenever that lies in the range.
\<close>

theorem retained_sample_contribution:
  "(0 < sample_count sample \<and> (only_growth \<longrightarrow> is_censored sample) \<longrightarrow>
      entry_of (samples_map (profile_visit symbolize only_growth sample st)) k =
        (if k = stack_key symbolize (stack sample)
         then \<lparr>bytes = wrap64 (bytes (entry_of (samples_map st) k) + int (allocated_size sample)),
               count = wrap64 (count (entry_of (samples_map st) k) + 1)\<rparr>
         else entry_of (samples_map st) k)) \<and>
   entry_of (samples_map (snapshot_visit symbolize samples entry st)) k =
     (if k = stack_key symbolize
               (map (GetSampleProgramCounter samples entry) [0..<GetSampleDepth samples entry])
      then \<lparr>bytes = wrap64 (bytes (entry_of (samples_map st) k) + int (GetSampleSize samples entry)),
            count = wrap64 (count (entry_of (samples_map st) k) + int (GetSampleCount samples entry))\<rparr>
      else entry_of (samples_map st) k) \<and>
   entry_of (samples_map (AggregateProfile symbolize only_growth profile)) k =
     \<lparr>bytes = wrap64 (\<Sum>s\<leftarrow>filter (\<lambda>s. retained only_growth s \<and> stack_key symbolize (stack s) = k)
                              profile. int (allocated_size s)),
      count = wrap64 (int (length (filter (\<lambda>s. retained only_growth s \<and>
                                              stack_key symbolize (stack s) = k) profile)))\<rparr> \<and>
   (- (2 ^ 63) \<le> x \<and> x < 2 ^ 63 \<longrightarrow> wrap64 x = x)"
proof (intro conjI impI)
  assume "0 < sample_count sample \<and> (only_growth \<longrightarrow> is_censored sample)"
  then have "retained only_growth sample"
    by (simp add: retained_def)
  then show "entry_of (samples_map (profile_visit symbolize only_growth sample st)) k =
        (if k = stack_key symbolize (stack sample)
         then \<lparr>bytes = wrap64 (bytes (entry_of (samples_map st) k) + int (allocated_size sample)),
               count = wrap64 (count (entry_of (samples_map st) k) + 1)\<rparr>
         else entry_of (samples_map st) k)"
    by (simp add: profile_visit_eq entry_of_entry_add)
next
  show "entry_of (samples_map (snapshot_visit symbolize samples entry st)) k =
     (if k = stack_key symbolize
               (map (GetSampleProgramCounter samples entry) [0..<GetSampleDepth samples entry])
      then \<lparr>bytes = wrap64 (bytes (entry_of (samples_map st) k) + int (GetSampleSize samples entry)),
            count = wrap64 (count (entry_of (samples_map st) k) + int (GetSampleCount samples entry))\<rparr>
      else entry_of (samples_map st) k)"
    by (simp add: snapshot_visit_eq entry_of_entry_add)
next
  show "entry_of (samples_map (AggregateProfile symbolize only_growth profile)) k =
     \<lparr>bytes = wrap64 (\<Sum>s\<leftarrow>filter (\<lambda>s. retained only_growth s \<and> stack_key symbolize (stack s) = k)
                              profile. int (allocated_size s)),
      count = wrap64 (int (length (filter (\<lambda>s. retained only_growth s \<and>
                                              stack_key symbolize (stack s) = k) profile)))\<rparr>"
    by (rule entry_of_AggregateProfile)
next
  assume "- (2 ^ 63) \<le> x \<and> x < 2 ^ 63"
  then show "wrap64 x = x"
    by (simp add: wrap64_id)
qed

theorem retained_sample_contribution_witness:
  "entry_of
     (samples_map
        (profile_visit example_symbolize True sample_c
           \<lparr>failed_symbolizations = 0,
            samples_map =
              [(''Failed to symbolize'' @ endl @ ''Failed to symbolize'' @ endl @
                ''Failed to symbolize'' @ endl, \<lparr>bytes = 64, count = 1\<rparr>)]\<rparr>))
     (''Failed to symbolize'' @ endl @ ''Failed to symbolize'' @ endl @
      ''Failed to symbolize'' @ endl) = \<lparr>bytes = 114, count = 2\<rparr> \<and>
   entry_of
     (samples_map
        (snapshot_visit example_symbolize example_snapshot 0
           \<lparr>failed_symbolizations = 0,
            samples_map = [(''foo'' @ endl @ ''bar'' @ endl, \<lparr>bytes = 64, count = 1\<rparr>)]\<rparr>))
     (''foo'' @ endl @ ''bar'' @ endl) = \<lparr>bytes = 192, count = 3\<rparr> \<and>
   wrap64 114 = 114"
proof -
  let ?k = "''Failed to symbolize'' @ endl @ ''Failed to symbolize'' @ endl @
            ''Failed to symbolize'' @ endl"
  note t = retained_sample_contribution[of sample_c True example_symbolize
      "\<lparr>failed_symbolizations = 0, samples_map = [(?k, \<lparr>bytes = 64, count = 1\<rparr>)]\<rparr>"
      ?k _ _ _ 114]
  note u = retained_sample_contribution[of sample_c True example_symbolize
      "\<lparr>failed_symbolizations = 0,
        samples_map = [(''foo'' @ endl @ ''bar'' @ endl, \<lparr>bytes = 64, count = 1\<rparr>)]\<rparr>"
      "''foo'' @ endl @ ''bar'' @ endl" example_snapshot 0 _ 114]
  have r: "0 < sample_count sample_c \<and> (True \<longrightarrow> is_censored sample_c)"
    by (simp add: sample_c_def)
  have k: "stack_key example_symbolize (stack sample_c) = ?k"
    by (simp add: stack_key_def frame_line_def example_symbolize_def sample_c_def)
  have s: "int (allocated_size sample_c) = 50"
    by (simp add: sample_c_def)
  have f: "map (GetSampleProgramCounter example_snapshot 0) [0..<GetSampleDepth example_snapshot 0] = [1, 2]"
    by (simp add: GetSampleProgramCounter_def GetSampleDepth_def example_snapshot_def upt_rec)
  have k2: "stack_key example_symbolize [1, 2] = ''foo'' @ endl @ ''bar'' @ endl"
    by (simp add: stack_key_def frame_line_def example_symbolize_def)
  have g: "GetSampleSize example_snapshot 0 = 128" "GetSampleCount example_snapshot 0 = 2"
    by (simp_all add: GetSampleSize_def GetSampleCount_def example_snapshot_def)
  from t r have a: "entry_of
     (samples_map
        (profile_visit example_symbolize True sample_c
           \<lparr>failed_symbolizations = 0, samples_map = [(?k, \<lparr>bytes = 64, count = 1\<rparr>)]\<rparr>))
     ?k = \<lparr>bytes = 114, count = 2\<rparr>"
    unfolding agg_state.simps k s by (simp add: entry_of_def wrap64_def)
  from u have b: "entry_of
     (samples_map
        (snapshot_visit example_symbolize example_snapshot 0
           \<lparr>failed_symbolizations = 0,
            samples_map = [(''foo'' @ endl @ ''bar'' @ endl, \<lparr>bytes = 64, count = 1\<rparr>)]\<rparr>))
     (''foo'' @ endl @ ''bar'' @ endl) = \<lparr>bytes = 192, count = 3\<rparr>"
    unfolding f k2 g agg_state.simps by (simp add: entry_of_def wrap64_def)
  from t have c: "wrap64 114 = 114"
    by simp
  from a b c show ?thesis by blast
qed

subsection \<open>C2: the byte total\<close>

text \<open>
  C2, as stated, has the cumulative bytes add up to the byte totals of the retained
  samples. The byte total of a sample is its \<^verbatim>\<open>sum\<close>; the visitor adds \<^verbatim>\<open>allocated_size\<close>,
  the size of the one allocation that was sampled. The retained sample that stands for
  3 allocations and 150 bytes is aggregated to 50 bytes. The totals are 64-bit
  variables besides: one retained sample of \<open>2^63\<close> allocated bytes is aggregated to
  \<open>- 2^63\<close>.
\<close>

theorem byte_total_counterexample:
  "retained False sample_c \<and>
   sample_sum sample_c = 150 \<and>
   total_bytes (samples_map (AggregateProfile example_symbolize False [sample_c])) = 50 \<and>
   total_bytes (samples_map (AggregateProfile example_symbolize False [sample_c])) \<noteq>
     (\<Sum>s\<leftarrow>filter (retained False) [sample_c]. sample_sum s) \<and>
   retained False sample_huge \<and>
   int (allocated_size sample_huge) = 9223372036854775808 \<and>
   total_bytes (samples_map (AggregateProfile example_symbolize False [sample_huge])) =
     - 9223372036854775808"
proof -
  have r: "retained False sample_c" "sample_sum sample_c = 150"
    by (simp_all add: retained_def sample_c_def)
  have h: "retained False sample_huge" "int (allocated_size sample_huge) = 9223372036854775808"
    by (simp_all add: retained_def sample_huge_def)
  have a: "total_bytes (samples_map (AggregateProfile example_symbolize False [sample_c])) = 50"
    unfolding example_aggregate_c by (simp add: total_bytes_def)
  have b: "total_bytes (samples_map (AggregateProfile example_symbolize False [sample_huge])) =
     - 9223372036854775808"
    unfolding example_aggregate_huge by (simp add: total_bytes_def)
  show ?thesis
    unfolding a b using r h by simp
qed

text \<open>
  C2, amended. For every sample sequence and either mode, the cumulative bytes summed
  over all aggregated entries and the allocated sizes summed over the retained samples
  (those with a positive count and, in growth-only mode, marked censored) are equal
  modulo \<open>2^64\<close>, and they are equal when the sum of the allocated sizes is below \<open>2^63\<close>.
  This holds of the map the visitor builds and of the sorted vector
  \<^verbatim>\<open>AggregateAndSortProfile\<close> returns.
\<close>

theorem aggregated_bytes_total:
  "total_bytes (samples_map (AggregateProfile symbolize only_growth profile)) mod 2 ^ 64 =
     (\<Sum>s\<leftarrow>filter (\<lambda>s. 0 < sample_count s \<and> (only_growth \<longrightarrow> is_censored s)) profile.
        int (allocated_size s)) mod 2 ^ 64 \<and>
   ((\<Sum>s\<leftarrow>filter (\<lambda>s. 0 < sample_count s \<and> (only_growth \<longrightarrow> is_censored s)) profile.
        int (allocated_size s)) < 2 ^ 63 \<longrightarrow>
      total_bytes (samples_map (AggregateProfile symbolize only_growth profile)) =
        (\<Sum>s\<leftarrow>filter (\<lambda>s. 0 < sample_count s \<and> (only_growth \<longrightarrow> is_censored s)) profile.
           int (allocated_size s))) \<and>
   (std_sort_contract std_sort \<longrightarrow>
      total_bytes (AggregateAndSortProfile std_sort symbolize profile only_growth order) mod 2 ^ 64 =
        (\<Sum>s\<leftarrow>filter (\<lambda>s. 0 < sample_count s \<and> (only_growth \<longrightarrow> is_censored s)) profile.
           int (allocated_size s)) mod 2 ^ 64) \<and>
   (std_sort_contract std_sort \<and>
    (\<Sum>s\<leftarrow>filter (\<lambda>s. 0 < sample_count s \<and> (only_growth \<longrightarrow> is_censored s)) profile.
        int (allocated_size s)) < 2 ^ 63 \<longrightarrow>
      total_bytes (AggregateAndSortProfile std_sort symbolize profile only_growth order) =
        (\<Sum>s\<leftarrow>filter (\<lambda>s. 0 < sample_count s \<and> (only_growth \<longrightarrow> is_censored s)) profile.
           int (allocated_size s)))"
proof -
  let ?sum = "\<Sum>s\<leftarrow>filter (retained only_growth) profile. int (allocated_size s)"
  let ?m = "samples_map (AggregateProfile symbolize only_growth profile)"
  have r: "(\<lambda>s. 0 < sample_count s \<and> (only_growth \<longrightarrow> is_censored s)) = retained only_growth"
    by (rule ext) (simp add: retained_def)
  have z: "total_bytes (samples_map agg_init) = 0" "\<forall>e\<in>set (samples_map agg_init). 0 \<le> bytes (snd e)"
    by (simp_all add: agg_init_def total_bytes_def)
  have m: "total_bytes ?m mod 2 ^ 64 = ?sum mod 2 ^ 64"
    unfolding AggregateProfile_def
    using total_bytes_profile_iterate_mod[of symbolize only_growth profile agg_init]
    unfolding z(1) by simp
  have x: "total_bytes ?m = ?sum" if "?sum < 2 ^ 63"
  proof -
    from that have "total_bytes (samples_map agg_init) + ?sum < 2 ^ 63"
      unfolding z(1) by simp
    from profile_iterate_bytes_exact[OF z(2) this, of symbolize]
    show ?thesis
      unfolding AggregateProfile_def z(1) by simp
  qed
  have s: "total_bytes (AggregateAndSortProfile std_sort symbolize profile only_growth order) =
        total_bytes ?m"
    if "std_sort_contract std_sort"
    unfolding AggregateAndSortProfile_def Let_def
    by (rule total_bytes_mset) (rule sort_mset[OF that])
  show ?thesis
    unfolding r using m x s by simp
qed

theorem aggregated_bytes_total_witness:
  "total_bytes (samples_map (AggregateProfile example_symbolize False example_profile)) = 450 \<and>
   total_bytes (AggregateAndSortProfile insertion_sort example_symbolize example_profile False kBytes) = 450 \<and>
   total_bytes (samples_map (AggregateProfile example_symbolize True example_profile)) = 150 \<and>
   total_bytes (AggregateAndSortProfile insertion_sort example_symbolize example_profile True kCount) = 150 \<and>
   total_bytes (samples_map (AggregateProfile example_symbolize False [sample_huge])) mod 2 ^ 64 =
     9223372036854775808"
proof -
  have r: "(\<lambda>s. 0 < sample_count s \<and> (b \<longrightarrow> is_censored s)) = retained b" for b
    by (rule ext) (simp add: retained_def)
  have a: "(\<Sum>s\<leftarrow>filter (\<lambda>s. 0 < sample_count s \<and> (False \<longrightarrow> is_censored s)) example_profile.
              int (allocated_size s)) = 450"
    unfolding r example_retained_all by (simp add: sample_a_def sample_b_def sample_c_def)
  have g: "(\<Sum>s\<leftarrow>filter (\<lambda>s. 0 < sample_count s \<and> (True \<longrightarrow> is_censored s)) example_profile.
              int (allocated_size s)) = 150"
    unfolding r example_retained_growth by (simp add: sample_a_def sample_c_def)
  have h: "(\<Sum>s\<leftarrow>filter (\<lambda>s. 0 < sample_count s \<and> (False \<longrightarrow> is_censored s)) [sample_huge].
              int (allocated_size s)) = 9223372036854775808"
    by (simp add: sample_huge_def)
  have c: "std_sort_contract (insertion_sort :: Sample sorter)"
    by (rule insertion_sort_contract)
  note t = aggregated_bytes_total[of example_symbolize False example_profile insertion_sort kBytes]
  note u = aggregated_bytes_total[of example_symbolize True example_profile insertion_sort kCount]
  note v = aggregated_bytes_total[of example_symbolize False "[sample_huge]" insertion_sort kBytes]
  from t c have 1: "total_bytes (samples_map (AggregateProfile example_symbolize False example_profile)) = 450"
    and 2: "total_bytes (AggregateAndSortProfile insertion_sort example_symbolize example_profile False kBytes) = 450"
    unfolding a by simp_all
  from u c have 3: "total_bytes (samples_map (AggregateProfile example_symbolize True example_profile)) = 150"
    and 4: "total_bytes (AggregateAndSortProfile insertion_sort example_symbolize example_profile True kCount) = 150"
    unfolding g by simp_all
  from v have 5: "total_bytes (samples_map (AggregateProfile example_symbolize False [sample_huge])) mod 2 ^ 64 =
     9223372036854775808"
    unfolding h by simp
  from 1 2 3 4 5 show ?thesis by blast
qed

subsection \<open>C3: samples without a positive count\<close>

text \<open>
  C3, as stated, has every aggregated entry hold a count and a byte total that are not
  negative. The totals are signed 64-bit variables, and the sizes added to them are
  unsigned 64-bit values: a profile of one retained sample whose allocation has \<open>2^63\<close>
  bytes is aggregated to an entry of \<open>- 2^63\<close> bytes, and a snapshot whose one sample has
  the count word \<open>2^64 - 5\<close> and the size word \<open>2^63\<close> is aggregated to an entry of count
  \<open>- 5\<close> and \<open>- 2^63\<close> bytes.
\<close>

theorem negative_total_counterexample:
  "0 < sample_count sample_huge \<and>
   samples_map (AggregateProfile example_symbolize False [sample_huge]) =
     [(''foo'' @ endl, \<lparr>bytes = - 9223372036854775808, count = 1\<rparr>)] \<and>
   \<not> 0 \<le> bytes (snd (hd (samples_map (AggregateProfile example_symbolize False [sample_huge])))) \<and>
   AggregateHeapSnapshot example_symbolize wrapped_snapshot =
     Inr \<lparr>failed_symbolizations = 0,
          samples_map = [(''foo'' @ endl, \<lparr>bytes = - 9223372036854775808, count = - 5\<rparr>)]\<rparr>"
proof -
  have p: "0 < sample_count sample_huge"
    by (simp add: sample_huge_def)
  show ?thesis
    unfolding example_aggregate_huge example_heap_wrapped using p by simp
qed

text \<open>
  C3, amended. In either mode a sample whose count is zero or negative contributes to
  no entry: the aggregation of a profile is the aggregation of its samples of positive
  count. When the allocated sizes of the retained samples add up to less than \<open>2^63\<close>,
  every entry of the map has a byte total that is not negative; when fewer than \<open>2^63\<close>
  samples are retained, every entry has a count that is not negative; under both
  bounds the same holds of the sorted vector. In a snapshot whose samples have sizes
  that add up to less than \<open>2^63\<close> and counts that add up to less than \<open>2^63\<close>, every
  entry has a count and a byte total that are not negative.
\<close>

theorem nonpositive_samples_never_contribute:
  "AggregateProfile symbolize only_growth profile =
     AggregateProfile symbolize only_growth (filter (\<lambda>s. 0 < sample_count s) profile) \<and>
   ((\<Sum>s\<leftarrow>filter (retained only_growth) profile. int (allocated_size s)) < 2 ^ 63 \<longrightarrow>
      (\<forall>e\<in>set (samples_map (AggregateProfile symbolize only_growth profile)).
         0 \<le> bytes (snd e))) \<and>
   (int (length (filter (retained only_growth) profile)) < 2 ^ 63 \<longrightarrow>
      (\<forall>e\<in>set (samples_map (AggregateProfile symbolize only_growth profile)).
         0 \<le> count (snd e))) \<and>
   (std_sort_contract std_sort \<and>
    (\<Sum>s\<leftarrow>filter (retained only_growth) profile. int (allocated_size s)) < 2 ^ 63 \<and>
    int (length (filter (retained only_growth) profile)) < 2 ^ 63 \<longrightarrow>
      (\<forall>e\<in>set (AggregateAndSortProfile std_sort symbolize profile only_growth order).
         0 \<le> count (snd e) \<and> 0 \<le> bytes (snd e))) \<and>
   ((\<forall>t\<in>set traces. fst t \<noteq> 0) \<and>
    (\<Sum>t\<leftarrow>traces. int (fst (snd t))) < 2 ^ 63 \<and>
    (\<Sum>t\<leftarrow>traces. int (fst t)) < 2 ^ 63 \<longrightarrow>
      (\<exists>st. AggregateHeapSnapshot symbolize (flatten traces @ 0 # tl_arr) = Inr st \<and>
            (\<forall>e\<in>set (samples_map st). 0 \<le> count (snd e) \<and> 0 \<le> bytes (snd e))))"
proof -
  let ?m = "samples_map (AggregateProfile symbolize only_growth profile)"
  let ?bsum = "\<Sum>s\<leftarrow>filter (retained only_growth) profile. int (allocated_size s)"
  let ?n = "int (length (filter (retained only_growth) profile))"
  have z: "total_bytes (samples_map agg_init) = 0" "total_count (samples_map agg_init) = 0"
    "\<forall>e\<in>set (samples_map agg_init). 0 \<le> bytes (snd e)"
    "\<forall>e\<in>set (samples_map agg_init). 0 \<le> count (snd e)"
    by (simp_all add: agg_init_def total_bytes_def total_count_def)
  have a: "AggregateProfile symbolize only_growth profile =
        AggregateProfile symbolize only_growth (filter (\<lambda>s. 0 < sample_count s) profile)"
    by (rule AggregateProfile_positive)
  have b: "\<forall>e\<in>set ?m. 0 \<le> bytes (snd e)" if "?bsum < 2 ^ 63"
  proof -
    from that have "total_bytes (samples_map agg_init) + ?bsum < 2 ^ 63"
      unfolding z(1) by simp
    from profile_iterate_bytes_exact[OF z(3) this, of symbolize]
    show ?thesis
      unfolding AggregateProfile_def by simp
  qed
  have c: "\<forall>e\<in>set ?m. 0 \<le> count (snd e)" if "?n < 2 ^ 63"
  proof -
    from that have "total_count (samples_map agg_init) + ?n < 2 ^ 63"
      unfolding z(2) by simp
    from profile_iterate_count_exact[OF z(4) this, of symbolize]
    show ?thesis
      unfolding AggregateProfile_def by simp
  qed
  have d: "\<forall>e\<in>set (AggregateAndSortProfile std_sort symbolize profile only_growth order).
         0 \<le> count (snd e) \<and> 0 \<le> bytes (snd e)"
    if "std_sort_contract std_sort \<and> ?bsum < 2 ^ 63 \<and> ?n < 2 ^ 63"
  proof -
    from that have "set (AggregateAndSortProfile std_sort symbolize profile only_growth order) = set ?m"
      by (simp add: AggregateAndSortProfile_def sort_set)
    then show ?thesis
      using b c that by simp
  qed
  have e: "\<exists>st. AggregateHeapSnapshot symbolize (flatten traces @ 0 # tl_arr) = Inr st \<and>
            (\<forall>e\<in>set (samples_map st). 0 \<le> count (snd e) \<and> 0 \<le> bytes (snd e))"
    if h: "(\<forall>t\<in>set traces. fst t \<noteq> 0) \<and>
        (\<Sum>t\<leftarrow>traces. int (fst (snd t))) < 2 ^ 63 \<and> (\<Sum>t\<leftarrow>traces. int (fst t)) < 2 ^ 63"
  proof -
    from h have nz: "\<forall>t\<in>set traces. fst t \<noteq> 0"
      by simp
    from h have bb: "total_bytes (samples_map agg_init) + (\<Sum>t\<leftarrow>traces. int (fst (snd t))) < 2 ^ 63"
      unfolding z(1) by simp
    from h have cc: "total_count (samples_map agg_init) + (\<Sum>t\<leftarrow>traces. int (fst t)) < 2 ^ 63"
      unfolding z(2) by simp
    from fold_add_trace_exact[OF z(3) z(4) bb cc, of symbolize]
    have "\<forall>e\<in>set (samples_map (fold (add_trace symbolize) traces agg_init)).
            0 \<le> count (snd e) \<and> 0 \<le> bytes (snd e)"
      by blast
    with AggregateHeapSnapshot_flatten[OF nz, of symbolize tl_arr] show ?thesis
      by blast
  qed
  from a b c d e show ?thesis
    by blast
qed

theorem nonpositive_samples_never_contribute_witness:
  "AggregateProfile example_symbolize False example_profile =
     AggregateProfile example_symbolize False [sample_a, sample_b, sample_c] \<and>
   sample_count sample_dealloc = - 5 \<and>
   std_sort_contract (insertion_sort :: Sample sorter) \<and>
   AggregateAndSortProfile insertion_sort example_symbolize example_profile False kBytes =
     [(''foo'' @ endl @ ''bar'' @ endl, \<lparr>bytes = 400, count = 2\<rparr>),
      (''Failed to symbolize'' @ endl @ ''Failed to symbolize'' @ endl @
       ''Failed to symbolize'' @ endl, \<lparr>bytes = 50, count = 1\<rparr>)] \<and>
   (0::int) \<le> count \<lparr>bytes = 400, count = 2\<rparr> \<and> (0::int) \<le> bytes \<lparr>bytes = 400, count = 2\<rparr> \<and>
   (0::int) \<le> count \<lparr>bytes = 50, count = 1\<rparr> \<and> (0::int) \<le> bytes \<lparr>bytes = 50, count = 1\<rparr> \<and>
   AggregateHeapSnapshot example_symbolize example_snapshot =
     Inr \<lparr>failed_symbolizations = 1,
          samples_map =
            [(''foo'' @ endl @ ''bar'' @ endl, \<lparr>bytes = 128, count = 2\<rparr>),
             (''Failed to symbolize'' @ endl, \<lparr>bytes = 64, count = 1\<rparr>)]\<rparr> \<and>
   (0::int) \<le> count \<lparr>bytes = 128, count = 2\<rparr> \<and> (0::int) \<le> bytes \<lparr>bytes = 128, count = 2\<rparr> \<and>
   (0::int) \<le> count \<lparr>bytes = 64, count = 1\<rparr> \<and> (0::int) \<le> bytes \<lparr>bytes = 64, count = 1\<rparr>"
proof -
  have c: "std_sort_contract (insertion_sort :: Sample sorter)"
    by (rule insertion_sort_contract)
  have bs: "(\<Sum>s\<leftarrow>filter (retained False) example_profile. int (allocated_size s)) < 2 ^ 63"
    unfolding example_retained_all by (simp add: sample_a_def sample_b_def sample_c_def)
  have n: "int (length (filter (retained False) example_profile)) < 2 ^ 63"
    unfolding example_retained_all by simp
  have nz: "\<forall>t\<in>set example_traces. fst t \<noteq> 0"
    by (simp add: example_traces_def)
  have ts: "(\<Sum>t\<leftarrow>example_traces. int (fst (snd t))) < 2 ^ 63"
    "(\<Sum>t\<leftarrow>example_traces. int (fst t)) < 2 ^ 63"
    by (simp_all add: example_traces_def)
  have d: "sample_count sample_dealloc = - 5"
    by (simp add: sample_dealloc_def)
  note t = nonpositive_samples_never_contribute[of example_symbolize False example_profile
      insertion_sort kBytes example_traces "[5, 4096, 1, 2]"]
  from t have 1: "AggregateProfile example_symbolize False example_profile =
     AggregateProfile example_symbolize False [sample_a, sample_b, sample_c]"
    unfolding example_positive by blast
  from t c bs n
  have 2: "\<forall>e\<in>set (AggregateAndSortProfile insertion_sort example_symbolize example_profile False kBytes).
             0 \<le> count (snd e) \<and> 0 \<le> bytes (snd e)"
    by blast
  from t nz ts
  have 3: "\<exists>st. AggregateHeapSnapshot example_symbolize example_snapshot = Inr st \<and>
            (\<forall>e\<in>set (samples_map st). 0 \<le> count (snd e) \<and> 0 \<le> bytes (snd e))"
    unfolding example_snapshot_flatten by blast
  from 2 have 4: "(0::int) \<le> count \<lparr>bytes = 400, count = 2\<rparr> \<and> (0::int) \<le> bytes \<lparr>bytes = 400, count = 2\<rparr> \<and>
   (0::int) \<le> count \<lparr>bytes = 50, count = 1\<rparr> \<and> (0::int) \<le> bytes \<lparr>bytes = 50, count = 1\<rparr>"
    unfolding example_sorted_all by simp
  from 3 have 5: "(0::int) \<le> count \<lparr>bytes = 128, count = 2\<rparr> \<and> (0::int) \<le> bytes \<lparr>bytes = 128, count = 2\<rparr> \<and>
   (0::int) \<le> count \<lparr>bytes = 64, count = 1\<rparr> \<and> (0::int) \<le> bytes \<lparr>bytes = 64, count = 1\<rparr>"
    unfolding example_heap_aggregate by simp
  from 1 d c 4 5 show ?thesis
    unfolding example_sorted_all example_heap_aggregate by simp
qed

subsection \<open>C4: growth-only mode\<close>

text \<open>
  C4. In growth-only mode every sample that is not marked censored is discarded: the
  aggregation of a profile is the aggregation of its censored samples. With a censored
  sample of 50 bytes and count 1 and an uncensored one of 999 bytes and count 1, in
  either order, the result is the single entry of the censored sample.
\<close>

theorem growth_only_keeps_censored_only:
  "AggregateProfile symbolize True profile =
     AggregateProfile symbolize True (filter is_censored profile) \<and>
   (std_sort_contract std_sort \<and>
    is_censored c \<and> sample_count c = 1 \<and> allocated_size c = 50 \<and>
    \<not> is_censored n \<and> sample_count n = 1 \<and> allocated_size n = 999 \<longrightarrow>
      AggregateAndSortProfile std_sort symbolize [c, n] True order =
        [(stack_key symbolize (stack c), \<lparr>bytes = 50, count = 1\<rparr>)] \<and>
      AggregateAndSortProfile std_sort symbolize [n, c] True order =
        [(stack_key symbolize (stack c), \<lparr>bytes = 50, count = 1\<rparr>)])"
proof (intro conjI impI)
  show "AggregateProfile symbolize True profile =
        AggregateProfile symbolize True (filter is_censored profile)"
    by (rule AggregateProfile_censored)
next
  assume a: "std_sort_contract std_sort \<and>
    is_censored c \<and> sample_count c = 1 \<and> allocated_size c = 50 \<and>
    \<not> is_censored n \<and> sample_count n = 1 \<and> allocated_size n = 999"
  have one: "SortSamplesByOrder std_sort [x] order = [x]" for x
    using sort_mset[of std_sort "[x]" order] a by simp
  have "samples_map (AggregateProfile symbolize True [c, n]) =
          [(stack_key symbolize (stack c), \<lparr>bytes = 50, count = 1\<rparr>)]"
    using a by (simp add: AggregateProfile_def profile_visit_eq retained_def agg_init_def wrap64_def)
  then show "AggregateAndSortProfile std_sort symbolize [c, n] True order =
        [(stack_key symbolize (stack c), \<lparr>bytes = 50, count = 1\<rparr>)]"
    by (simp add: AggregateAndSortProfile_def one)
  have "samples_map (AggregateProfile symbolize True [n, c]) =
          [(stack_key symbolize (stack c), \<lparr>bytes = 50, count = 1\<rparr>)]"
    using a by (simp add: AggregateProfile_def profile_visit_eq retained_def agg_init_def wrap64_def)
  then show "AggregateAndSortProfile std_sort symbolize [n, c] True order =
        [(stack_key symbolize (stack c), \<lparr>bytes = 50, count = 1\<rparr>)]"
    by (simp add: AggregateAndSortProfile_def one)
qed

theorem growth_only_keeps_censored_only_witness:
  "AggregateProfile example_symbolize True example_profile =
     AggregateProfile example_symbolize True [sample_a, sample_dealloc, sample_c] \<and>
   \<not> is_censored sample_b \<and>
   std_sort_contract (insertion_sort :: Sample sorter) \<and>
   AggregateAndSortProfile insertion_sort example_symbolize [sample_grown, sample_freed] True kBytes =
     [(''foo'' @ endl, \<lparr>bytes = 50, count = 1\<rparr>)] \<and>
   AggregateAndSortProfile insertion_sort example_symbolize [sample_freed, sample_grown] True kBytes =
     [(''foo'' @ endl, \<lparr>bytes = 50, count = 1\<rparr>)]"
proof -
  have c: "std_sort_contract (insertion_sort :: Sample sorter)"
    by (rule insertion_sort_contract)
  have g: "is_censored sample_grown \<and> sample_count sample_grown = 1 \<and>
           allocated_size sample_grown = 50"
    by (simp add: sample_grown_def)
  have f: "\<not> is_censored sample_freed \<and> sample_count sample_freed = 1 \<and>
           allocated_size sample_freed = 999"
    by (simp add: sample_freed_def)
  have k: "stack_key example_symbolize (stack sample_grown) = ''foo'' @ endl"
    by (simp add: stack_key_def frame_line_def example_symbolize_def sample_grown_def)
  have b: "\<not> is_censored sample_b"
    by (simp add: sample_b_def)
  note t = growth_only_keeps_censored_only[of example_symbolize example_profile insertion_sort
        sample_grown sample_freed kBytes]
  from t have 1: "AggregateProfile example_symbolize True example_profile =
     AggregateProfile example_symbolize True [sample_a, sample_dealloc, sample_c]"
    unfolding example_censored by blast
  from t c g f
  have 2: "AggregateAndSortProfile insertion_sort example_symbolize [sample_grown, sample_freed] True kBytes =
     [(''foo'' @ endl, \<lparr>bytes = 50, count = 1\<rparr>)] \<and>
   AggregateAndSortProfile insertion_sort example_symbolize [sample_freed, sample_grown] True kBytes =
     [(''foo'' @ endl, \<lparr>bytes = 50, count = 1\<rparr>)]"
    unfolding k by blast
  from 1 b c 2 show ?thesis
    by blast
qed

subsection \<open>C5: the order of the sorted entries\<close>

text \<open>
  C5. For every list of entries, sorting by bytes yields a sequence of the same length
  in which each entry's cumulative bytes are at most those of the entry before it, and
  sorting by count yields one in which each entry's cumulative count is at most that of
  the entry before it.
\<close>

theorem sort_non_increasing:
  assumes "std_sort_contract std_sort"
  shows "length (SortSamplesByOrder std_sort samples order) = length samples \<and>
    (\<forall>i. Suc i < length samples \<longrightarrow>
       bytes (snd (SortSamplesByOrder std_sort samples kBytes ! Suc i))
         \<le> bytes (snd (SortSamplesByOrder std_sort samples kBytes ! i))) \<and>
    (\<forall>i. Suc i < length samples \<longrightarrow>
       count (snd (SortSamplesByOrder std_sort samples kCount ! Suc i))
         \<le> count (snd (SortSamplesByOrder std_sort samples kCount ! i)))"
proof (intro conjI allI impI)
  show "length (SortSamplesByOrder std_sort samples order) = length samples"
    by (rule sort_length[OF assms])
next
  fix i assume "Suc i < length samples"
  then have "Suc i < length (SortSamplesByOrder std_sort samples kBytes)"
    by (simp add: sort_length[OF assms])
  from sort_adjacent[OF assms this]
  show "bytes (snd (SortSamplesByOrder std_sort samples kBytes ! Suc i))
          \<le> bytes (snd (SortSamplesByOrder std_sort samples kBytes ! i))"
    by (simp add: sort_key_def)
next
  fix i assume "Suc i < length samples"
  then have "Suc i < length (SortSamplesByOrder std_sort samples kCount)"
    by (simp add: sort_length[OF assms])
  from sort_adjacent[OF assms this]
  show "count (snd (SortSamplesByOrder std_sort samples kCount ! Suc i))
          \<le> count (snd (SortSamplesByOrder std_sort samples kCount ! i))"
    by (simp add: sort_key_def)
qed

theorem sort_non_increasing_witness:
  "std_sort_contract (insertion_sort :: Sample sorter) \<and>
   length (SortSamplesByOrder insertion_sort example_entries kBytes) = 3 \<and>
   map (\<lambda>e. bytes (snd e)) (SortSamplesByOrder insertion_sort example_entries kBytes) = [30, 10, 10] \<and>
   bytes (snd (SortSamplesByOrder insertion_sort example_entries kBytes ! Suc 1))
     \<le> bytes (snd (SortSamplesByOrder insertion_sort example_entries kBytes ! 1)) \<and>
   map (\<lambda>e. count (snd e)) (SortSamplesByOrder insertion_sort example_entries kCount) = [4, 1, 0] \<and>
   count (snd (SortSamplesByOrder insertion_sort example_entries kCount ! Suc 0))
     \<le> count (snd (SortSamplesByOrder insertion_sort example_entries kCount ! 0))"
proof -
  have c: "std_sort_contract (insertion_sort :: Sample sorter)"
    by (rule insertion_sort_contract)
  have l: "length example_entries = 3"
    by (simp add: example_entries_def)
  note t = sort_non_increasing[OF c, of example_entries kBytes]
  from t have b: "bytes (snd (SortSamplesByOrder insertion_sort example_entries kBytes ! Suc 1))
     \<le> bytes (snd (SortSamplesByOrder insertion_sort example_entries kBytes ! 1))"
    unfolding l by simp
  from t have n: "count (snd (SortSamplesByOrder insertion_sort example_entries kCount ! Suc 0))
     \<le> count (snd (SortSamplesByOrder insertion_sort example_entries kCount ! 0))"
    unfolding l by simp
  from t have "length (SortSamplesByOrder insertion_sort example_entries kBytes) = 3"
    unfolding l by simp
  with c b n show ?thesis
    by (simp add: example_entries_by_bytes example_entries_by_count)
qed

subsection \<open>C6: what sorting preserves\<close>

text \<open>
  C6, as stated, asks for a stable sort. \<^verbatim>\<open>SortSamplesByOrder\<close> calls \<^verbatim>\<open>std::sort\<close>, which
  is free to reorder entries with equal keys, and the library does so once the vector
  has more than 16 entries: on seventeen entries of 10 bytes each, \<^verbatim>\<open>std::sort\<close> of GNU
  libstdc++ swaps the middle entry to the front and then the others pairwise around
  it, and the final insertion sort moves none of them, so that the entry that was
  ninth comes out first.
\<close>

theorem sort_stable_counterexample:
  "map fst tied_entries =
     [''s00'', ''s01'', ''s02'', ''s03'', ''s04'', ''s05'', ''s06'', ''s07'', ''s08'', ''s09'', ''s10'', ''s11'', ''s12'', ''s13'', ''s14'', ''s15'', ''s16''] \<and>
   filter (\<lambda>e. sort_key kBytes e = 10) tied_entries = tied_entries \<and>
   map fst (SortSamplesByOrder gnu_sort tied_entries kBytes) =
     [''s08'', ''s16'', ''s15'', ''s14'', ''s13'', ''s12'', ''s11'', ''s10'',
       ''s09'', ''s00'', ''s07'', ''s06'', ''s05'', ''s04'', ''s03'', ''s02'', ''s01''] \<and>
   libstdcxx_sort (sample_greater kBytes) tied_entries =
     Inr (SortSamplesByOrder gnu_sort tied_entries kBytes) \<and>
   filter (\<lambda>e. sort_key kBytes e = 10) (SortSamplesByOrder gnu_sort tied_entries kBytes) \<noteq>
     filter (\<lambda>e. sort_key kBytes e = 10) tied_entries"
proof -
  have r: "libstdcxx_sort (sample_greater kBytes) tied_entries =
     Inr (SortSamplesByOrder gnu_sort tied_entries kBytes)"
    by (simp add: SortSamplesByOrder_def gnu_sort_def tied_entries_libstdcxx)
  have i: "map fst tied_entries =
     [''s00'', ''s01'', ''s02'', ''s03'', ''s04'', ''s05'', ''s06'', ''s07'', ''s08'', ''s09'', ''s10'', ''s11'', ''s12'', ''s13'', ''s14'', ''s15'', ''s16'']"
    by (simp add: tied_entries_def)
  have f: "filter (\<lambda>e. sort_key kBytes e = 10) tied_entries = tied_entries"
    by (simp add: tied_entries_def sort_key_def)
  have s: "map fst (SortSamplesByOrder gnu_sort tied_entries kBytes) =
     [''s08'', ''s16'', ''s15'', ''s14'', ''s13'', ''s12'', ''s11'', ''s10'',
       ''s09'', ''s00'', ''s07'', ''s06'', ''s05'', ''s04'', ''s03'', ''s02'', ''s01'']"
    by (simp add: SortSamplesByOrder_def gnu_sort_def tied_entries_libstdcxx)
  have "map fst (filter (\<lambda>e. sort_key kBytes e = 10) (SortSamplesByOrder gnu_sort tied_entries kBytes)) =
     [''s08'', ''s16'', ''s15'', ''s14'', ''s13'', ''s12'', ''s11'', ''s10'',
       ''s09'', ''s00'', ''s07'', ''s06'', ''s05'', ''s04'', ''s03'', ''s02'', ''s01'']"
    by (simp add: SortSamplesByOrder_def gnu_sort_def tied_entries_libstdcxx sort_key_def)
  then have "map fst (filter (\<lambda>e. sort_key kBytes e = 10) (SortSamplesByOrder gnu_sort tied_entries kBytes)) \<noteq>
     map fst tied_entries"
    unfolding i by simp
  then have n: "filter (\<lambda>e. sort_key kBytes e = 10) (SortSamplesByOrder gnu_sort tied_entries kBytes) \<noteq>
     filter (\<lambda>e. sort_key kBytes e = 10) tied_entries"
    unfolding f by auto
  from i f s r n show ?thesis
    by blast
qed

text \<open>
  C6, amended. For every list of entries and either ordering key, the output of the sort
  is a permutation of its input: no entry is added, removed or changed. It is ordered
  by non-increasing key, and for every key value the entries with that key are the same
  in input and output, as a multiset; their relative order is whatever \<^verbatim>\<open>std::sort\<close>
  produces.
\<close>

theorem sort_is_permutation:
  assumes "std_sort_contract std_sort"
  shows "mset (SortSamplesByOrder std_sort samples order) = mset samples \<and>
    sorted_wrt (\<lambda>a b. sort_key order b \<le> sort_key order a)
      (SortSamplesByOrder std_sort samples order) \<and>
    mset (filter (\<lambda>e. sort_key order e = k) (SortSamplesByOrder std_sort samples order)) =
      mset (filter (\<lambda>e. sort_key order e = k) samples)"
  using sort_mset[OF assms, of samples order] sort_sorted_key[OF assms, of order samples]
  by (simp add: mset_filter)

theorem sort_is_permutation_witness:
  "std_sort_contract (insertion_sort :: Sample sorter) \<and>
   mset (SortSamplesByOrder insertion_sort example_entries kCount) = mset example_entries \<and>
   SortSamplesByOrder insertion_sort example_entries kCount =
     [(''b'', \<lparr>bytes = 10, count = 4\<rparr>),
      (''a'', \<lparr>bytes = 10, count = 1\<rparr>),
      (''c'', \<lparr>bytes = 30, count = 0\<rparr>)]"
  using sort_is_permutation[OF insertion_sort_contract, of example_entries kCount 1]
    insertion_sort_contract[where 'a = Sample]
  by (simp add: example_entries_by_count)

subsection \<open>C7: rows and truncation notice\<close>

text \<open>
  C7. \<^verbatim>\<open>GenerateTable\<close> never fails and appends, in this order: the title, the truncation
  notice when and only when the list is longer than \<^verbatim>\<open>max_call_stacks\<close>, the table head,
  one row for each of the first \<open>min max_call_stacks size\<close> entries, and the closing tag.
  A truncation notice for \<open>n\<close> is among the chunks written exactly when the list is longer
  than \<^verbatim>\<open>max_call_stacks\<close> and \<open>n\<close> is the difference; the number of rows is
  \<open>min max_call_stacks size\<close>; for the empty list there is no notice and no row.
\<close>

theorem GenerateTable_rows_and_truncation:
  "\<exists>written.
     GenerateTable esc output samples title max_call_stacks = Inr (output @ written) \<and>
     written =
       [title_chunk max_call_stacks title] @
       (if max_call_stacks < length samples
        then [truncation_notice (int (length samples) - int max_call_stacks)] else []) @
       table_head @
       concat (map (table_row esc) (take (min max_call_stacks (length samples)) samples)) @
       [Lit ''</table>''] \<and>
     (\<forall>n. truncation_notice n \<in> set written \<longleftrightarrow>
            max_call_stacks < length samples \<and> n = int (length samples) - int max_call_stacks) \<and>
     length (filter (\<lambda>c. c = Lit ''<tr>'') written) = min max_call_stacks (length samples) \<and>
     (samples = [] \<longrightarrow> written = [title_chunk max_call_stacks title] @ table_head @ [Lit ''</table>''])"
proof -
  let ?rows = "concat (map (table_row esc) (take (min max_call_stacks (length samples)) samples))"
  let ?notice = "if max_call_stacks < length samples
        then [truncation_notice (int (length samples) - int max_call_stacks)] else []"
  let ?written = "[title_chunk max_call_stacks title] @ ?notice @ table_head @ ?rows @ [Lit ''</table>'']"
  have n: "int (length samples - max_call_stacks) = int (length samples) - int max_call_stacks"
    if "max_call_stacks < length samples"
    using that by simp
  have g: "GenerateTable esc output samples title max_call_stacks = Inr (output @ ?written)"
    by (simp add: GenerateTable_eq n)
  have mem: "truncation_notice n \<in> set ?written \<longleftrightarrow>
            max_call_stacks < length samples \<and> n = int (length samples) - int max_call_stacks" for n
  proof -
    have "truncation_notice n \<in> set ?written \<longleftrightarrow> truncation_notice n \<in> set ?notice"
      using notice_notin_rows[of n esc] notice_notin_head[of n] notice_not_title[of n]
      by (simp add: truncation_notice_def)
    also have "\<dots> \<longleftrightarrow> max_call_stacks < length samples \<and> n = int (length samples) - int max_call_stacks"
      by (auto simp: notice_inj)
    finally show ?thesis .
  qed
  have t: "Lit ''<tr>'' \<noteq> title_chunk max_call_stacks title"
    by (simp add: title_chunk_def)
  have h: "filter (\<lambda>c. c = Lit ''<tr>'') table_head = []"
    by (simp add: table_head_def)
  have u: "filter (\<lambda>c. c = Lit ''<tr>'') ?notice = []"
    by (simp add: truncation_notice_def)
  have rows: "length (filter (\<lambda>c. c = Lit ''<tr>'') ?written) = min max_call_stacks (length samples)"
    using t by (simp add: h u row_marker_count del: set_concat)
  have e: "samples = [] \<longrightarrow> ?written = [title_chunk max_call_stacks title] @ table_head @ [Lit ''</table>'']"
    by simp
  from g mem rows e show ?thesis
    by (intro exI[of _ ?written]) blast
qed

theorem GenerateTable_rows_and_truncation_witness:
  "GenerateTable (\<lambda>s. s) [] example_entries ''heap'' 2 =
     Inr ([title_chunk 2 ''heap'', truncation_notice 1] @ table_head @
          table_row (\<lambda>s. s) (''a'', \<lparr>bytes = 10, count = 1\<rparr>) @
          table_row (\<lambda>s. s) (''b'', \<lparr>bytes = 10, count = 4\<rparr>) @
          [Lit ''</table>'']) \<and>
   GenerateTable (\<lambda>s. s) [] [] ''heap'' 2 =
     Inr ([title_chunk 2 ''heap''] @ table_head @ [Lit ''</table>''])"
proof -
  have l: "length example_entries = 3"
    by (simp add: example_entries_def)
  from GenerateTable_rows_and_truncation[of "\<lambda>s. s" "[]" example_entries "''heap''" 2]
  have a: "GenerateTable (\<lambda>s. s) [] example_entries ''heap'' 2 =
     Inr ([title_chunk 2 ''heap'', truncation_notice 1] @ table_head @
          table_row (\<lambda>s. s) (''a'', \<lparr>bytes = 10, count = 1\<rparr>) @
          table_row (\<lambda>s. s) (''b'', \<lparr>bytes = 10, count = 4\<rparr>) @
          [Lit ''</table>''])"
    unfolding example_rows unfolding l by auto
  from GenerateTable_rows_and_truncation[of "\<lambda>s. s" "[]" "[]" "''heap''" 2]
  have b: "GenerateTable (\<lambda>s. s) [] [] ''heap'' 2 =
     Inr ([title_chunk 2 ''heap''] @ table_head @ [Lit ''</table>''])"
    by auto
  from a b show ?thesis ..
qed

subsection \<open>C8: the average column\<close>

text \<open>
  C8, as stated, has the average column show the floor of bytes / count whenever the
  count is positive. The division of C++ truncates towards zero, and a cumulative byte
  total can be negative (the snapshot sample of count 2 whose size word is \<open>2^64 - 7\<close>
  is aggregated to \<open>- 7\<close> bytes): for \<open>- 7\<close> bytes and count 2 the column shows \<open>- 3\<close>, and the
  floor is \<open>- 4\<close>.
\<close>

theorem average_floor_counterexample:
  "AggregateHeapSnapshot example_symbolize negative_snapshot =
     Inr \<lparr>failed_symbolizations = 0,
          samples_map = [(''foo'' @ endl, \<lparr>bytes = - 7, count = 2\<rparr>)]\<rparr> \<and>
   0 < count \<lparr>bytes = - 7, count = 2\<rparr> \<and>
   avg_bytes \<lparr>bytes = - 7, count = 2\<rparr> = Inr (- 3) \<and>
   bytes \<lparr>bytes = - 7, count = 2\<rparr> div count \<lparr>bytes = - 7, count = 2\<rparr> = - 4 \<and>
   avg_bytes \<lparr>bytes = - 7, count = 2\<rparr> \<noteq>
     Inr (bytes \<lparr>bytes = - 7, count = 2\<rparr> div count \<lparr>bytes = - 7, count = 2\<rparr>) \<and>
   GenerateTable (\<lambda>s. s) [] [(''foo'' @ endl, \<lparr>bytes = - 7, count = 2\<rparr>)] ''heap'' 1 =
     Inr ([title_chunk 1 ''heap''] @ table_head @
          [Lit ''<tr>'',
           Format ''<td>$0</td>'' [Num (- 7)],
           Format ''<td>$0</td>'' [Num 2],
           Format ''<td>$0</td>'' [Num (- 3)],
           Format ''<td><pre>$0</pre></td>'' [Str (''foo'' @ endl)],
           Lit ''</tr>'',
           Lit ''</table>''])"
proof -
  have a: "avg_bytes \<lparr>bytes = - 7, count = 2\<rparr> = Inr (- 3)"
    by (simp add: avg_bytes_def int64_div_def trunc_div_def)
  have c: "avg_column \<lparr>bytes = - 7, count = 2\<rparr> = - 3"
    by (simp add: avg_column_def a)
  have g: "GenerateTable (\<lambda>s. s) [] [(''foo'' @ endl, \<lparr>bytes = - 7, count = 2\<rparr>)] ''heap'' 1 =
     Inr ([title_chunk 1 ''heap''] @ table_head @
          [Lit ''<tr>'',
           Format ''<td>$0</td>'' [Num (- 7)],
           Format ''<td>$0</td>'' [Num 2],
           Format ''<td>$0</td>'' [Num (- 3)],
           Format ''<td><pre>$0</pre></td>'' [Str (''foo'' @ endl)],
           Lit ''</tr>'',
           Lit ''</table>''])"
    by (simp add: GenerateTable_eq table_row_def row_chunks_def c)
  show ?thesis
    unfolding a g example_heap_negative by simp
qed

text \<open>
  C8, amended. The average column is computed without ever dividing by zero. It shows 0
  when the count is 0 (and also when it is negative). When the count is positive it
  shows the quotient of bytes by count rounded towards zero: the floor of bytes / count
  when the byte total is not negative, and minus the floor of (- bytes) / count when it
  is negative. The value computed is the fourth cell of the entry's row, and these are
  the rows \<^verbatim>\<open>GenerateTable\<close> writes.
\<close>

theorem average_bytes_column:
  "avg_bytes info \<noteq> Inl DivisionByZero \<and>
   (count info \<le> 0 \<longrightarrow> avg_bytes info = Inr 0) \<and>
   (0 < count info \<and> 0 \<le> bytes info \<longrightarrow> avg_bytes info = Inr (bytes info div count info)) \<and>
   (0 < count info \<and> bytes info < 0 \<longrightarrow>
      avg_bytes info = Inr (- ((- bytes info) div count info))) \<and>
   (avg_bytes (snd entry) = Inr avg \<longrightarrow>
      table_row esc entry ! 3 = Format ''<td>$0</td>'' [Num avg]) \<and>
   GenerateTable esc output samples title max_call_stacks =
     Inr (output @ [title_chunk max_call_stacks title] @
          (if max_call_stacks < length samples
           then [truncation_notice (int (length samples - max_call_stacks))] else []) @
          table_head @
          concat (map (\<lambda>e. row_chunks esc e
                         (if count (snd e) \<le> 0 then 0
                          else if 0 \<le> bytes (snd e) then bytes (snd e) div count (snd e)
                          else - ((- bytes (snd e)) div count (snd e))))
                    (take (min max_call_stacks (length samples)) samples)) @
          [Lit ''</table>''])"
proof (intro conjI impI)
  show "avg_bytes info \<noteq> Inl DivisionByZero"
    by (simp add: avg_bytes_Inr)
  show "avg_bytes info = Inr 0" if "count info \<le> 0"
    using that by (simp add: avg_bytes_def)
  show "avg_bytes info = Inr (bytes info div count info)" if "0 < count info \<and> 0 \<le> bytes info"
    using that avg_column_floor[of info] by (simp add: avg_bytes_Inr)
  show "avg_bytes info = Inr (- ((- bytes info) div count info))"
    if "0 < count info \<and> bytes info < 0"
    using that avg_column_trunc[of info] by (simp add: avg_bytes_Inr)
  show "table_row esc entry ! 3 = Format ''<td>$0</td>'' [Num avg]" if "avg_bytes (snd entry) = Inr avg"
    using that by (simp add: table_row_def row_chunks_def avg_bytes_Inr numeral_3_eq_3)
  have c: "avg_column i =
             (if count i \<le> 0 then 0
              else if 0 \<le> bytes i then bytes i div count i
              else - ((- bytes i) div count i))" for i
    using avg_column_zero[of i] avg_column_floor[of i] avg_column_trunc[of i]
    by (cases "count i \<le> 0"; cases "0 \<le> bytes i") simp_all
  have r: "table_row esc =
       (\<lambda>e. row_chunks esc e
               (if count (snd e) \<le> 0 then 0
                else if 0 \<le> bytes (snd e) then bytes (snd e) div count (snd e)
                else - ((- bytes (snd e)) div count (snd e))))"
    by (rule ext) (simp only: table_row_def c)
  show "GenerateTable esc output samples title max_call_stacks =
     Inr (output @ [title_chunk max_call_stacks title] @
          (if max_call_stacks < length samples
           then [truncation_notice (int (length samples - max_call_stacks))] else []) @
          table_head @
          concat (map (\<lambda>e. row_chunks esc e
                         (if count (snd e) \<le> 0 then 0
                          else if 0 \<le> bytes (snd e) then bytes (snd e) div count (snd e)
                          else - ((- bytes (snd e)) div count (snd e))))
                    (take (min max_call_stacks (length samples)) samples)) @
          [Lit ''</table>''])"
    unfolding r[symmetric] by (rule GenerateTable_eq)
qed

theorem average_bytes_column_witness:
  "avg_bytes \<lparr>bytes = 30, count = 0\<rparr> = Inr 0 \<and>
   avg_bytes \<lparr>bytes = 400, count = 2\<rparr> = Inr 200 \<and>
   avg_bytes \<lparr>bytes = 10, count = 4\<rparr> = Inr 2 \<and>
   avg_bytes \<lparr>bytes = - 7, count = 2\<rparr> = Inr (- 3) \<and>
   table_row (\<lambda>s. s) (''b'', \<lparr>bytes = 10, count = 4\<rparr>) ! 3 = Format ''<td>$0</td>'' [Num 2] \<and>
   GenerateTable (\<lambda>s. s) [] [(''b'', \<lparr>bytes = 10, count = 4\<rparr>), (''c'', \<lparr>bytes = 30, count = 0\<rparr>)]
       ''heap'' 1 =
     Inr ([title_chunk 1 ''heap'', truncation_notice 1] @ table_head @
          row_chunks (\<lambda>s. s) (''b'', \<lparr>bytes = 10, count = 4\<rparr>) 2 @
          [Lit ''</table>''])"
proof -
  note t = average_bytes_column[of "\<lparr>bytes = 30, count = 0\<rparr>"]
    average_bytes_column[of "\<lparr>bytes = 400, count = 2\<rparr>"]
    average_bytes_column[of "\<lparr>bytes = 10, count = 4\<rparr>" "(''b'', \<lparr>bytes = 10, count = 4\<rparr>)" 2 "\<lambda>s. s"
      "[]" "[(''b'', \<lparr>bytes = 10, count = 4\<rparr>), (''c'', \<lparr>bytes = 30, count = 0\<rparr>)]" "''heap''" 1]
    average_bytes_column[of "\<lparr>bytes = - 7, count = 2\<rparr>"]
  from t(1) have a: "avg_bytes \<lparr>bytes = 30, count = 0\<rparr> = Inr 0" by simp
  from t(2) have b: "avg_bytes \<lparr>bytes = 400, count = 2\<rparr> = Inr 200" by simp
  from t(3) have c: "avg_bytes \<lparr>bytes = 10, count = 4\<rparr> = Inr 2" by simp
  from t(4) have n: "avg_bytes \<lparr>bytes = - 7, count = 2\<rparr> = Inr (- 3)" by simp
  from t(3) c have d: "table_row (\<lambda>s. s) (''b'', \<lparr>bytes = 10, count = 4\<rparr>) ! 3 = Format ''<td>$0</td>'' [Num 2]"
    by simp
  from t(3) have g: "GenerateTable (\<lambda>s. s) [] [(''b'', \<lparr>bytes = 10, count = 4\<rparr>), (''c'', \<lparr>bytes = 30, count = 0\<rparr>)]
       ''heap'' 1 =
     Inr ([title_chunk 1 ''heap'', truncation_notice 1] @ table_head @
          row_chunks (\<lambda>s. s) (''b'', \<lparr>bytes = 10, count = 4\<rparr>) 2 @
          [Lit ''</table>''])"
    by simp
  from a b c n d g show ?thesis by blast
qed

subsection \<open>C9: frames that fail to symbolize\<close>



subsection \<open>C10: the snapshot backend\<close>

text \<open>
  C10. The snapshot array is the layout of a sequence of samples with non-zero counts,
  then a zero count, then anything. The gperftools backend visits exactly the samples
  before the zero and ignores what follows it. Every one of them is added, with no
  filter: the entry of a key holds the sum of the sizes and the sum of the counts of
  all samples with that key, each as a 64-bit variable stores it, which is the sum
  itself when it is below \<open>2^63\<close>. The function has no growth-only parameter.
\<close>

theorem snapshot_aggregates_up_to_sentinel:
  assumes "\<forall>t\<in>set traces. fst t \<noteq> 0"
  shows "AggregateHeapSnapshot symbolize (flatten traces @ 0 # rest) =
           Inr (fold (add_trace symbolize) traces agg_init) \<and>
         GetAggregateAndSortHeapSnapshot std_sort symbolize (flatten traces @ 0 # rest) order =
           Inr (SortSamplesByOrder std_sort
                  (samples_map (fold (add_trace symbolize) traces agg_init)) order) \<and>
         entry_of (samples_map (fold (add_trace symbolize) traces agg_init)) k =
           \<lparr>bytes = wrap64 (\<Sum>t\<leftarrow>filter (\<lambda>t. trace_key symbolize t = k) traces. int (fst (snd t))),
            count = wrap64 (\<Sum>t\<leftarrow>filter (\<lambda>t. trace_key symbolize t = k) traces. int (fst t))\<rparr> \<and>
         ((\<Sum>t\<leftarrow>filter (\<lambda>t. trace_key symbolize t = k) traces. int (fst (snd t))) < 2 ^ 63 \<and>
          (\<Sum>t\<leftarrow>filter (\<lambda>t. trace_key symbolize t = k) traces. int (fst t)) < 2 ^ 63 \<longrightarrow>
            entry_of (samples_map (fold (add_trace symbolize) traces agg_init)) k =
              \<lparr>bytes = (\<Sum>t\<leftarrow>filter (\<lambda>t. trace_key symbolize t = k) traces. int (fst (snd t))),
               count = (\<Sum>t\<leftarrow>filter (\<lambda>t. trace_key symbolize t = k) traces. int (fst t))\<rparr>)"
proof (intro conjI impI)
  show a: "AggregateHeapSnapshot symbolize (flatten traces @ 0 # rest) =
           Inr (fold (add_trace symbolize) traces agg_init)"
    by (rule AggregateHeapSnapshot_flatten[OF assms])
  show "GetAggregateAndSortHeapSnapshot std_sort symbolize (flatten traces @ 0 # rest) order =
           Inr (SortSamplesByOrder std_sort
                  (samples_map (fold (add_trace symbolize) traces agg_init)) order)"
    by (simp add: GetAggregateAndSortHeapSnapshot_def a)
  show e: "entry_of (samples_map (fold (add_trace symbolize) traces agg_init)) k =
           \<lparr>bytes = wrap64 (\<Sum>t\<leftarrow>filter (\<lambda>t. trace_key symbolize t = k) traces. int (fst (snd t))),
            count = wrap64 (\<Sum>t\<leftarrow>filter (\<lambda>t. trace_key symbolize t = k) traces. int (fst t))\<rparr>"
    by (rule entry_of_fold_add_trace)
  assume b: "(\<Sum>t\<leftarrow>filter (\<lambda>t. trace_key symbolize t = k) traces. int (fst (snd t))) < 2 ^ 63 \<and>
          (\<Sum>t\<leftarrow>filter (\<lambda>t. trace_key symbolize t = k) traces. int (fst t)) < 2 ^ 63"
  have p: "0 \<le> (\<Sum>t\<leftarrow>filter (\<lambda>t. trace_key symbolize t = k) traces. int (fst (snd t)))"
    "0 \<le> (\<Sum>t\<leftarrow>filter (\<lambda>t. trace_key symbolize t = k) traces. int (fst t))"
    by (auto intro!: sum_list_nonneg)
  have "wrap64 (\<Sum>t\<leftarrow>filter (\<lambda>t. trace_key symbolize t = k) traces. int (fst (snd t))) =
          (\<Sum>t\<leftarrow>filter (\<lambda>t. trace_key symbolize t = k) traces. int (fst (snd t)))"
    using p(1) b by (intro wrap64_id) simp_all
  moreover have "wrap64 (\<Sum>t\<leftarrow>filter (\<lambda>t. trace_key symbolize t = k) traces. int (fst t)) =
          (\<Sum>t\<leftarrow>filter (\<lambda>t. trace_key symbolize t = k) traces. int (fst t))"
    using p(2) b by (intro wrap64_id) simp_all
  ultimately show "entry_of (samples_map (fold (add_trace symbolize) traces agg_init)) k =
              \<lparr>bytes = (\<Sum>t\<leftarrow>filter (\<lambda>t. trace_key symbolize t = k) traces. int (fst (snd t))),
               count = (\<Sum>t\<leftarrow>filter (\<lambda>t. trace_key symbolize t = k) traces. int (fst t))\<rparr>"
    unfolding e by simp
qed

theorem snapshot_aggregates_up_to_sentinel_witness:
  "AggregateHeapSnapshot example_symbolize example_snapshot =
     Inr \<lparr>failed_symbolizations = 1,
          samples_map =
            [(''foo'' @ endl @ ''bar'' @ endl, \<lparr>bytes = 128, count = 2\<rparr>),
             (''Failed to symbolize'' @ endl, \<lparr>bytes = 64, count = 1\<rparr>)]\<rparr> \<and>
   GetAggregateAndSortHeapSnapshot insertion_sort example_symbolize example_snapshot kCount =
     Inr [(''foo'' @ endl @ ''bar'' @ endl, \<lparr>bytes = 128, count = 2\<rparr>),
          (''Failed to symbolize'' @ endl, \<lparr>bytes = 64, count = 1\<rparr>)] \<and>
   entry_of (samples_map (fold (add_trace example_symbolize) example_traces agg_init))
     (''foo'' @ endl @ ''bar'' @ endl) = \<lparr>bytes = 128, count = 2\<rparr>"
proof -
  have nz: "\<forall>t\<in>set example_traces. fst t \<noteq> 0"
    by (simp add: example_traces_def)
  note t = snapshot_aggregates_up_to_sentinel[OF nz, of example_symbolize "[5, 4096, 1, 2]"
      insertion_sort kCount "''foo'' @ endl @ ''bar'' @ endl"]
  have f: "filter (\<lambda>t. trace_key example_symbolize t = ''foo'' @ endl @ ''bar'' @ endl) example_traces =
             [(2, 128, [1, 2])]"
    by (simp add: example_traces_def trace_key_def stack_key_def frame_line_def example_symbolize_def)
  from t have a: "AggregateHeapSnapshot example_symbolize example_snapshot =
      Inr (fold (add_trace example_symbolize) example_traces agg_init)"
    unfolding example_snapshot_flatten by simp
  from t have b: "GetAggregateAndSortHeapSnapshot insertion_sort example_symbolize example_snapshot kCount =
      Inr (SortSamplesByOrder insertion_sort
             (samples_map (fold (add_trace example_symbolize) example_traces agg_init)) kCount)"
    unfolding example_snapshot_flatten by simp
  from t have c: "entry_of (samples_map (fold (add_trace example_symbolize) example_traces agg_init))
     (''foo'' @ endl @ ''bar'' @ endl) = \<lparr>bytes = 128, count = 2\<rparr>"
    unfolding f by (simp add: wrap64_def)
  show ?thesis
    unfolding a b using c unfolding example_fold
    by (simp add: SortSamplesByOrder_def insertion_sort_def sample_greater_def)
qed

end
